theory Spec2Isabelle
  imports Main "HOL-Library.Word" "HOL-Library.Finite_Map"
begin

section \<open>Data model of package node\<close>

text \<open>
  The node orchestrator of go-seele (package \<open>node\<close>) talks to four collaborators whose
  code is outside the given sources: the services it hosts, the p2p server, the rpc
  servers and the \<open>net\<close> listeners. The model is sequential (the lock of \<open>Node\<close> is
  not represented) and records every call made on a collaborator, in program order, in
  a trace of events. A collaborator is a deterministic black box: what a call returns is
  a function of the history of calls made before it. Logging is not represented.
\<close>

type_synonym addr = nat
type_synonym rtype = string      \<comment> \<open>\<open>reflect.Type\<close> of a service\<close>
type_synonym Protocol = string   \<comment> \<open>\<open>p2p.Protocol\<close>, opaque\<close>
type_synonym rcvr = string       \<comment> \<open>the receiver object of an \<open>rpc.API\<close>, opaque\<close>
type_synonym p2p_Config = string \<comment> \<open>\<open>p2p.Config\<close>, opaque, copied by value\<close>

text \<open>
  The error values of the package, any error value made by a collaborator
  (\<open>Other\<close>), and \<open>*StopError\<close> with its map \<open>Services\<close> from the type of a
  service to the error its \<open>Stop\<close> returned.
\<close>

datatype error =
    ErrConfigIsNull
  | ErrLogIsNull
  | ErrNodeRunning
  | ErrNodeStopped
  | ErrServiceStartFailed
  | ErrServiceStopFailed
  | Other string
  | StopError "(rtype, error) fmap"

text \<open>
  A \<open>[]string\<close> is a reference: a backing array and a length, or nil. \<open>Config\<close> has
  the fields the sources read: \<open>P2P\<close>, the two listening addresses, and the two
  \<open>[]string\<close> handed to \<open>startHTTPRPC\<close>.
\<close>

datatype slice = NilSlice | Slice addr nat

record Config =
  P2P :: p2p_Config
  RPCAddr :: string
  HTTPAddr :: string
  HTTPWhiteHost :: slice
  HTTPCors :: slice

text \<open>
  The store: the \<open>Config\<close> structs and the backing arrays of string slices that
  are allocated, each addressed by its index. Allocation appends.
\<close>

record heap =
  structs :: "Config list"
  arrays :: "string list list"

definition deref :: "heap \<Rightarrow> addr \<Rightarrow> Config option" where
  "deref h p = (if p < length (structs h) then Some (structs h ! p) else None)"

definition slice_elems :: "heap \<Rightarrow> slice \<Rightarrow> string list" where
  "slice_elems h s =
     (case s of
        NilSlice \<Rightarrow> []
      | Slice a n \<Rightarrow> (if a < length (arrays h) then take n (arrays h ! a) else []))"

record API =
  Namespace :: string
  Service :: rcvr

record p2p_Server =
  Server_Config :: p2p_Config
  Server_Protocols :: "Protocol list"

datatype event =
    P2PStart p2p_Server                  \<comment> \<open>\<open>running.Start()\<close>\<close>
  | P2PStop                              \<comment> \<open>\<open>Stop()\<close> of the p2p server\<close>
  | SvcStart nat p2p_Server              \<comment> \<open>\<open>service.Start(running)\<close>\<close>
  | SvcStop nat                          \<comment> \<open>\<open>service.Stop()\<close>\<close>
  | RPCRegister string rcvr              \<comment> \<open>\<open>handler.RegisterName\<close>\<close>
  | RPCListen string                     \<comment> \<open>\<open>net.Listen\<close> on \<open>RPCAddr\<close>\<close>
  | RPCAccept "(string \<times> rcvr) list"     \<comment> \<open>the accept loop is launched\<close>
  | HTTPNew "string list" "string list"  \<comment> \<open>\<open>rpc.NewHTTPServer(whitehosts, corsList)\<close>\<close>
  | HTTPRegister string rcvr             \<comment> \<open>\<open>httpServer.RegisterName\<close>\<close>
  | HTTPHandle                           \<comment> \<open>\<open>httpServer.HandleHTTP\<close>\<close>
  | HTTPListen string                    \<comment> \<open>\<open>net.Listen\<close> on \<open>HTTPAddr\<close>\<close>
  | HTTPServe "(string \<times> rcvr) list"     \<comment> \<open>\<open>http.Serve\<close> is launched\<close>

text \<open>
  A value of the interface \<open>Service\<close>: the identity of the object, its runtime type,
  and its four methods. \<open>Protocols\<close> and \<open>APIs\<close> are read-only and return the same
  lists at every call; \<open>Start\<close> and \<open>Stop\<close> answer from the history of calls.
\<close>

record Service =
  svc_id :: nat
  svc_type :: rtype
  svc_Protocols :: "Protocol list"
  svc_APIs :: "API list"
  svc_Start :: "p2p_Server \<Rightarrow> event list \<Rightarrow> error option"
  svc_Stop :: "event list \<Rightarrow> error option"

text \<open>
  The other collaborators: \<open>Start\<close> of the p2p server, \<open>net.Listen\<close>, and the reasons
  for which \<open>RegisterName\<close> refuses a receiver whatever was registered before.
\<close>

record env =
  p2p_Start :: "p2p_Server \<Rightarrow> event list \<Rightarrow> error option"
  net_Listen :: "string \<Rightarrow> event list \<Rightarrow> error option"
  reg_check :: "string \<Rightarrow> rcvr \<Rightarrow> error option"

record Node =
  config :: addr
  serverConfig :: p2p_Config
  server :: "p2p_Server option"
  services :: "Service list"
  rpcAPIs :: "API list"

section \<open>Operations of Node\<close>

text \<open>
  \<open>New\<close>: \<open>confCopy := *conf\<close> copies the struct into a fresh cell, and the node
  keeps the address of the copy. \<open>None\<close> is the panic of dereferencing nil. The error
  returned beside the node is always nil.
\<close>

definition New :: "heap \<Rightarrow> addr \<Rightarrow> (Node \<times> error option \<times> heap) option" where
  "New h conf =
     (case deref h conf of
        None \<Rightarrow> None
      | Some confCopy \<Rightarrow>
          Some (\<lparr>config = length (structs h), serverConfig = [], server = None,
                  services = [], rpcAPIs = []\<rparr>,
                None,
                h\<lparr>structs := structs h @ [confCopy]\<rparr>))"

definition Register :: "Node \<Rightarrow> Service \<Rightarrow> error option \<times> Node" where
  "Register n service =
     (if server n \<noteq> None then (Some ErrNodeRunning, n)
      else (None, n\<lparr>services := services n @ [service]\<rparr>))"

text \<open>The inner loop of the rollback: \<open>Stop\<close> of each service, the result dropped.\<close>

fun stopEach :: "Service list \<Rightarrow> event list \<Rightarrow> event list" where
  "stopEach [] t = t"
| "stopEach (s # ss) t = stopEach ss (t @ [SvcStop (svc_id s)])"

text \<open>
  The loop \<open>for i, service := range n.services\<close> of \<open>Start\<close>. The second argument
  is \<open>n.services[0..i)\<close>, the services already started, the third the ones still to
  start. On a failure the services of \<open>n.services[0..i)\<close> are stopped from index 0
  upwards, then the p2p server.
\<close>

fun startServices ::
  "p2p_Server \<Rightarrow> Service list \<Rightarrow> Service list \<Rightarrow> event list \<Rightarrow> error option \<times> event list" where
  "startServices running started [] t = (None, t)"
| "startServices running started (s # rest) t =
     (case svc_Start s running t of
        Some err \<Rightarrow>
          (Some err, stopEach started (t @ [SvcStart (svc_id s) running]) @ [P2PStop])
      | None \<Rightarrow>
          startServices running (started @ [s]) rest (t @ [SvcStart (svc_id s) running]))"

text \<open>
  Modelled from the spec: \<open>RegisterName\<close> of the rpc server (package \<open>rpc\<close> is not
  among the sources). Each namespace is registered once; registering the same namespace
  twice is an error. The argument \<open>regd\<close> is the table of the server.
\<close>

definition RegisterName ::
  "env \<Rightarrow> (string \<times> rcvr) list \<Rightarrow> string \<Rightarrow> rcvr \<Rightarrow> error option \<times> (string \<times> rcvr) list" where
  "RegisterName env regd ns r =
     (if ns \<in> set (map fst regd) then (Some (Other (''rpc: service already defined: '' @ ns)), regd)
      else case reg_check env ns r of
             Some err \<Rightarrow> (Some err, regd)
           | None \<Rightarrow> (None, regd @ [(ns, r)]))"

text \<open>
  The loop \<open>for _, api := range apis\<close> of \<open>startJSONRPC\<close> and of \<open>startHTTPRPC\<close>;
  \<open>ev\<close> is the event of the server at hand.
\<close>

fun registerAll ::
  "env \<Rightarrow> (string \<Rightarrow> rcvr \<Rightarrow> event) \<Rightarrow> API list \<Rightarrow> (string \<times> rcvr) list \<Rightarrow> event list \<Rightarrow>
   error option \<times> (string \<times> rcvr) list \<times> event list" where
  "registerAll env ev [] regd t = (None, regd, t)"
| "registerAll env ev (api # apis) regd t =
     (case RegisterName env regd (Namespace api) (Service api) of
        (Some err, regd') \<Rightarrow> (Some err, regd', t @ [ev (Namespace api) (Service api)])
      | (None, regd') \<Rightarrow>
          registerAll env ev apis regd' (t @ [ev (Namespace api) (Service api)]))"

definition startJSONRPC :: "env \<Rightarrow> Config \<Rightarrow> API list \<Rightarrow> event list \<Rightarrow> error option \<times> event list" where
  "startJSONRPC env conf apis t =
     (case registerAll env RPCRegister apis [] t of
        (Some err, handler, t1) \<Rightarrow> (Some err, t1)
      | (None, handler, t1) \<Rightarrow>
          (case net_Listen env (RPCAddr conf) t1 of
             Some err \<Rightarrow> (Some err, t1 @ [RPCListen (RPCAddr conf)])
           | None \<Rightarrow> (None, t1 @ [RPCListen (RPCAddr conf), RPCAccept handler])))"

definition startHTTPRPC ::
  "env \<Rightarrow> heap \<Rightarrow> Config \<Rightarrow> API list \<Rightarrow> slice \<Rightarrow> slice \<Rightarrow> event list \<Rightarrow> error option \<times> event list" where
  "startHTTPRPC env h conf apis whitehosts corsList t =
     (case registerAll env HTTPRegister apis []
             (t @ [HTTPNew (slice_elems h whitehosts) (slice_elems h corsList)]) of
        (Some err, httpServer, t1) \<Rightarrow> (Some err, t1)
      | (None, httpServer, t1) \<Rightarrow>
          (case net_Listen env (HTTPAddr conf) (t1 @ [HTTPHandle]) of
             Some err \<Rightarrow> (Some err, t1 @ [HTTPHandle, HTTPListen (HTTPAddr conf)])
           | None \<Rightarrow>
               (None, t1 @ [HTTPHandle, HTTPListen (HTTPAddr conf), HTTPServe httpServer])))"

definition startRPC ::
  "env \<Rightarrow> heap \<Rightarrow> Config \<Rightarrow> Service list \<Rightarrow> event list \<Rightarrow> error option \<times> event list" where
  "startRPC env h conf svcs t =
     (let apis = concat (map svc_APIs svcs) in
      case startJSONRPC env conf apis t of
        (Some err, t1) \<Rightarrow> (Some err, t1)
      | (None, t1) \<Rightarrow>
          (case startHTTPRPC env h conf apis (HTTPWhiteHost conf) (HTTPCors conf) t1 of
             (Some err, t2) \<Rightarrow> (Some err, t2)
           | (None, t2) \<Rightarrow> (None, t2)))"

text \<open>
  \<open>Start\<close>. \<open>None\<close> is the panic of dereferencing \<open>n.config\<close> when it is nil;
  \<open>conf\<close> is the struct \<open>n.config\<close> points to, which nothing writes during the call.
\<close>

definition Start ::
  "env \<Rightarrow> heap \<Rightarrow> Node \<Rightarrow> event list \<Rightarrow> (error option \<times> Node \<times> event list) option" where
  "Start env h n t =
     (if server n \<noteq> None then Some (Some ErrNodeRunning, n, t)
      else case deref h (config n) of
        None \<Rightarrow> None
      | Some conf \<Rightarrow>
          (let n1 = n\<lparr>serverConfig := P2P conf\<rparr>;
               running = \<lparr>Server_Config = serverConfig n1,
                          Server_Protocols = concat (map svc_Protocols (services n1))\<rparr>
           in case p2p_Start env running t of
                Some err \<Rightarrow> Some (Some ErrServiceStartFailed, n1, t @ [P2PStart running])
              | None \<Rightarrow>
                  (case startServices running [] (services n1) (t @ [P2PStart running]) of
                     (Some err, t2) \<Rightarrow> Some (Some err, n1, t2)
                   | (None, t2) \<Rightarrow>
                       (case startRPC env h conf (services n1) t2 of
                          (Some err, t3) \<Rightarrow>
                            Some (Some err, n1, stopEach (services n1) t3 @ [P2PStop])
                        | (None, t3) \<Rightarrow> Some (None, n1\<lparr>server := Some running\<rparr>, t3)))))"

text \<open>
  The loop of \<open>Stop\<close>: each service is stopped, and a non-nil error is stored in the
  map under \<open>reflect.TypeOf(service)\<close>.
\<close>

fun stopServices ::
  "Service list \<Rightarrow> (rtype, error) fmap \<Rightarrow> event list \<Rightarrow> (rtype, error) fmap \<times> event list" where
  "stopServices [] m t = (m, t)"
| "stopServices (s # ss) m t =
     (case svc_Stop s t of
        Some err \<Rightarrow> stopServices ss (fmupd (svc_type s) err m) (t @ [SvcStop (svc_id s)])
      | None \<Rightarrow> stopServices ss m (t @ [SvcStop (svc_id s)]))"

definition Stop :: "Node \<Rightarrow> event list \<Rightarrow> error option \<times> Node \<times> event list" where
  "Stop n t =
     (if server n = None then (Some ErrNodeStopped, n, t)
      else case stopServices (services n) fmempty t of
        (stopErr, t1) \<Rightarrow>
          (let n1 = n\<lparr>services := [], server := None\<rparr>
           in if stopErr \<noteq> fmempty then (Some (StopError stopErr), n1, t1 @ [P2PStop])
              else (None, n1, t1 @ [P2PStop])))"

definition Restart ::
  "env \<Rightarrow> heap \<Rightarrow> Node \<Rightarrow> event list \<Rightarrow> (error option \<times> Node \<times> event list) option" where
  "Restart env h n t =
     (case Stop n t of
        (Some err, n1, t1) \<Rightarrow> Some (Some err, n1, t1)
      | (None, n1, t1) \<Rightarrow>
          (case Start env h n1 t1 of
             None \<Rightarrow> None
           | Some (Some err, n2, t2) \<Rightarrow> Some (Some err, n2, t2)
           | Some (None, n2, t2) \<Rightarrow> Some (None, n2, t2)))"

section \<open>Reward lookup of package pow\<close>

text \<open>
  Modelled from the spec: \<open>GetReward\<close>, \<open>rewardTable\<close>, \<open>blockNumberPerEra\<close> and
  \<open>tailReward\<close> of package \<open>pow\<close> are not among the sources, only \<open>Test_Reward\<close> is.
  The era is \<open>floor(blockNumber / blockNumberPerEra)\<close>, the reward is
  \<open>rewardTable[era]\<close> for \<open>era < len(rewardTable)\<close>, else the fixed tail reward. Block
  numbers are \<open>uint64\<close>, as in the test; the table, the era length and the tail reward
  are parameters. \<open>None\<close> is the panic of an integer division by zero.
\<close>

definition GetReward :: "int list \<Rightarrow> 64 word \<Rightarrow> int \<Rightarrow> 64 word \<Rightarrow> int option" where
  "GetReward rewardTable blockNumberPerEra tailReward blockNumber =
     (if blockNumberPerEra = 0 then None
      else let era = unat (blockNumber div blockNumberPerEra)
           in if era < length rewardTable then Some (rewardTable ! era) else Some tailReward)"

section \<open>Vocabulary of the properties\<close>

text \<open>The events of starting and of stopping a list of services, in the order of the list.\<close>

definition starts_of :: "p2p_Server \<Rightarrow> Service list \<Rightarrow> event list" where
  "starts_of running ss = map (\<lambda>s. SvcStart (svc_id s) running) ss"

definition stops_of :: "Service list \<Rightarrow> event list" where
  "stops_of ss = map (\<lambda>s. SvcStop (svc_id s)) ss"

text \<open>The p2p server that \<open>Start\<close> builds for a node whose config struct is \<open>conf\<close>.\<close>

definition server_of :: "Config \<Rightarrow> Service list \<Rightarrow> p2p_Server" where
  "server_of conf ss =
     \<lparr>Server_Config = P2P conf, Server_Protocols = concat (map svc_Protocols ss)\<rparr>"

text \<open>The table of an rpc server on which every API of a list has been registered.\<close>

definition api_table :: "API list \<Rightarrow> (string \<times> rcvr) list" where
  "api_table apis = map (\<lambda>a. (Namespace a, Service a)) apis"

text \<open>
  The failures of the \<open>Stop\<close> calls that the loop of \<open>Node.Stop\<close> makes from history
  \<open>t\<close>: the type of each service whose \<open>Stop\<close> returned a non-nil error, with that
  error, in the order of the calls.
\<close>

fun stop_failures :: "Service list \<Rightarrow> event list \<Rightarrow> (rtype \<times> error) list" where
  "stop_failures [] t = []"
| "stop_failures (s # ss) t =
     (case svc_Stop s t of Some err \<Rightarrow> [(svc_type s, err)] | None \<Rightarrow> [])
     @ stop_failures ss (t @ [SvcStop (svc_id s)])"

text \<open>An aggregate holds every error of a list of failures, each under the key of its service.\<close>

definition holds_each_error :: "(rtype, error) fmap \<Rightarrow> (rtype \<times> error) list \<Rightarrow> bool" where
  "holds_each_error m fs = list_all (\<lambda>(ty, err). fmlookup m ty = Some err) fs"

text \<open>
  Two readings of "registered before accepting" on the events of one \<open>Start\<close>, with
  the namespaces passed so far to \<open>RegisterName\<close> of the raw-socket server (\<open>rj\<close>)
  and of the HTTP server (\<open>rh\<close>): at every launch of a serving loop both servers
  have every namespace of \<open>nss\<close>; or the server of the loop being launched has them.
\<close>

fun registered_before_either_accepts ::
  "string list \<Rightarrow> string list \<Rightarrow> string list \<Rightarrow> event list \<Rightarrow> bool" where
  "registered_before_either_accepts nss rj rh [] = True"
| "registered_before_either_accepts nss rj rh (RPCRegister ns r # es) =
     registered_before_either_accepts nss (ns # rj) rh es"
| "registered_before_either_accepts nss rj rh (HTTPRegister ns r # es) =
     registered_before_either_accepts nss rj (ns # rh) es"
| "registered_before_either_accepts nss rj rh (RPCAccept tbl # es) =
     (list_all (\<lambda>ns. ns \<in> set rj \<and> ns \<in> set rh) nss
      \<and> registered_before_either_accepts nss rj rh es)"
| "registered_before_either_accepts nss rj rh (HTTPServe tbl # es) =
     (list_all (\<lambda>ns. ns \<in> set rj \<and> ns \<in> set rh) nss
      \<and> registered_before_either_accepts nss rj rh es)"
| "registered_before_either_accepts nss rj rh (e # es) =
     registered_before_either_accepts nss rj rh es"

fun registered_before_own_accept ::
  "string list \<Rightarrow> string list \<Rightarrow> string list \<Rightarrow> event list \<Rightarrow> bool" where
  "registered_before_own_accept nss rj rh [] = True"
| "registered_before_own_accept nss rj rh (RPCRegister ns r # es) =
     registered_before_own_accept nss (ns # rj) rh es"
| "registered_before_own_accept nss rj rh (HTTPRegister ns r # es) =
     registered_before_own_accept nss rj (ns # rh) es"
| "registered_before_own_accept nss rj rh (RPCAccept tbl # es) =
     (list_all (\<lambda>ns. ns \<in> set rj) nss \<and> registered_before_own_accept nss rj rh es)"
| "registered_before_own_accept nss rj rh (HTTPServe tbl # es) =
     (list_all (\<lambda>ns. ns \<in> set rh) nss \<and> registered_before_own_accept nss rj rh es)"
| "registered_before_own_accept nss rj rh (e # es) =
     registered_before_own_accept nss rj rh es"

text \<open>
  What the caller of \<open>New\<close> can do to its own config object \<open>*p\<close> afterwards: assign
  a field, or store into an element of one of the two string slices. \<open>None\<close> is a
  panic (nil dereference, index out of range).
\<close>

datatype mutation =
    SetP2P p2p_Config
  | SetRPCAddr string
  | SetHTTPAddr string
  | SetHTTPWhiteHost slice
  | SetHTTPCors slice
  | SetHTTPWhiteHostElem nat string
  | SetHTTPCorsElem nat string

definition store_elem :: "heap \<Rightarrow> slice \<Rightarrow> nat \<Rightarrow> string \<Rightarrow> heap option" where
  "store_elem h s i v =
     (case s of
        NilSlice \<Rightarrow> None
      | Slice a n \<Rightarrow>
          (if i < n \<and> a < length (arrays h) \<and> i < length (arrays h ! a)
           then Some (h\<lparr>arrays := (arrays h)[a := (arrays h ! a)[i := v]]\<rparr>)
           else None))"

definition store_struct :: "heap \<Rightarrow> addr \<Rightarrow> Config \<Rightarrow> heap" where
  "store_struct h p c = h\<lparr>structs := (structs h)[p := c]\<rparr>"

fun mutate :: "heap \<Rightarrow> addr \<Rightarrow> mutation \<Rightarrow> heap option" where
  "mutate h p (SetP2P v) = map_option (\<lambda>c. store_struct h p (c\<lparr>P2P := v\<rparr>)) (deref h p)"
| "mutate h p (SetRPCAddr v) = map_option (\<lambda>c. store_struct h p (c\<lparr>RPCAddr := v\<rparr>)) (deref h p)"
| "mutate h p (SetHTTPAddr v) = map_option (\<lambda>c. store_struct h p (c\<lparr>HTTPAddr := v\<rparr>)) (deref h p)"
| "mutate h p (SetHTTPWhiteHost v) =
     map_option (\<lambda>c. store_struct h p (c\<lparr>HTTPWhiteHost := v\<rparr>)) (deref h p)"
| "mutate h p (SetHTTPCors v) = map_option (\<lambda>c. store_struct h p (c\<lparr>HTTPCors := v\<rparr>)) (deref h p)"
| "mutate h p (SetHTTPWhiteHostElem i v) =
     (case deref h p of None \<Rightarrow> None | Some c \<Rightarrow> store_elem h (HTTPWhiteHost c) i v)"
| "mutate h p (SetHTTPCorsElem i v) =
     (case deref h p of None \<Rightarrow> None | Some c \<Rightarrow> store_elem h (HTTPCors c) i v)"

fun mutate_all :: "heap \<Rightarrow> addr \<Rightarrow> mutation list \<Rightarrow> heap option" where
  "mutate_all h p [] = Some h"
| "mutate_all h p (m # ms) =
     (case mutate h p m of None \<Rightarrow> None | Some h' \<Rightarrow> mutate_all h' p ms)"

fun field_assignment :: "mutation \<Rightarrow> bool" where
  "field_assignment (SetHTTPWhiteHostElem i v) = False"
| "field_assignment (SetHTTPCorsElem i v) = False"
| "field_assignment m = True"

text \<open>
  The config a node has stored, as a later \<open>Start\<close> reads it: the fields of the struct
  \<open>n.config\<close> points to, the two slices by their elements.
\<close>

definition stored_config ::
  "heap \<Rightarrow> Node \<Rightarrow> (p2p_Config \<times> string \<times> string \<times> string list \<times> string list) option" where
  "stored_config h n =
     map_option
       (\<lambda>c. (P2P c, RPCAddr c, HTTPAddr c,
             slice_elems h (HTTPWhiteHost c), slice_elems h (HTTPCors c)))
       (deref h (config n))"

text \<open>
  The composite the specification describes for \<open>Restart\<close>, as a caller would write
  it: \<open>Stop\<close>, then \<open>Start\<close>; if \<open>Stop\<close> fails, \<open>Start\<close> is not attempted and the
  stop error is surfaced.
\<close>

definition Stop_then_Start ::
  "env \<Rightarrow> heap \<Rightarrow> Node \<Rightarrow> event list \<Rightarrow> (error option \<times> Node \<times> event list) option" where
  "Stop_then_Start env h n t =
     (case Stop n t of
        (Some err, n1, t1) \<Rightarrow> Some (Some err, n1, t1)
      | (None, n1, t1) \<Rightarrow> Start env h n1 t1)"

section \<open>Concrete inputs\<close>

text \<open>
  A store with one config object of a caller at address 0, collaborators that always
  succeed, collaborators of which one fails, and services that answer the same at any
  history.
\<close>

definition conf0 :: Config where
  "conf0 = \<lparr>P2P = ''p2p'', RPCAddr = '':55027'', HTTPAddr = '':65027'',
            HTTPWhiteHost = Slice 0 1, HTTPCors = Slice 1 1\<rparr>"

definition heap0 :: heap where
  "heap0 = \<lparr>structs = [conf0], arrays = [[''localhost''], [''seele.pro'']]\<rparr>"

definition heap1 :: heap where
  "heap1 = \<lparr>structs = [conf0, conf0], arrays = [[''localhost''], [''seele.pro'']]\<rparr>"

definition heap_evil :: heap where
  "heap_evil = \<lparr>structs = [conf0, conf0], arrays = [[''localhost''], [''evil'']]\<rparr>"

definition env_ok :: env where
  "env_ok = \<lparr>p2p_Start = (\<lambda>srv t. None), net_Listen = (\<lambda>a t. None),
             reg_check = (\<lambda>ns r. None)\<rparr>"

definition env_p2p_down :: env where
  "env_p2p_down = \<lparr>p2p_Start = (\<lambda>srv t. Some (Other ''no udp port'')),
                   net_Listen = (\<lambda>a t. None), reg_check = (\<lambda>ns r. None)\<rparr>"

definition env_http_busy :: env where
  "env_http_busy =
     \<lparr>p2p_Start = (\<lambda>srv t. None),
      net_Listen = (\<lambda>a t. if a = '':65027'' then Some (Other ''address in use'') else None),
      reg_check = (\<lambda>ns r. None)\<rparr>"

definition fixed_service ::
  "nat \<Rightarrow> rtype \<Rightarrow> string \<Rightarrow> error option \<Rightarrow> error option \<Rightarrow> Service" where
  "fixed_service i ty ns start_result stop_result =
     \<lparr>svc_id = i, svc_type = ty, svc_Protocols = [ns],
      svc_APIs = [\<lparr>Namespace = ns, Service = ns @ ''API''\<rparr>],
      svc_Start = (\<lambda>srv t. start_result), svc_Stop = (\<lambda>t. stop_result)\<rparr>"

definition svcA :: Service where
  "svcA = fixed_service 1 ''*A'' ''chain'' None None"

definition svcB :: Service where
  "svcB = fixed_service 2 ''*B'' ''pool'' (Some (Other ''E'')) (Some (Other ''F''))"

definition svcC :: Service where
  "svcC = fixed_service 3 ''*C'' ''miner'' None None"

definition svcA2 :: Service where
  "svcA2 = fixed_service 4 ''*A'' ''chain'' None (Some (Other ''F2''))"

definition svcA1 :: Service where
  "svcA1 = fixed_service 5 ''*A'' ''net'' None (Some (Other ''F1''))"

definition idle_node :: "Service list \<Rightarrow> Node" where
  "idle_node ss = \<lparr>config = 1, serverConfig = [], server = None, services = ss, rpcAPIs = []\<rparr>"

definition running_node :: "Service list \<Rightarrow> Node" where
  "running_node ss =
     \<lparr>config = 1, serverConfig = ''p2p'', server = Some (server_of conf0 ss),
      services = ss, rpcAPIs = []\<rparr>"

section \<open>Node: proofs\<close>

lemma stopEach_eq: "stopEach ss t = t @ stops_of ss"
  by (induction ss arbitrary: t) (simp_all add: stops_of_def)

lemma starts_of_Nil [simp]: "starts_of running [] = []"
  by (simp add: starts_of_def)

lemma startServices_all_ok:
  "(\<forall>i < length ss. svc_Start (ss ! i) running (t @ starts_of running (take i ss)) = None)
   \<Longrightarrow> startServices running started ss t = (None, t @ starts_of running ss)"
proof (induction ss arbitrary: started t)
  case Nil
  show ?case by simp
next
  case (Cons s ss)
  from Cons.prems have s: "svc_Start s running t = None" by force
  let ?t = "t @ [SvcStart (svc_id s) running]"
  have rest: "\<forall>i < length ss.
                svc_Start (ss ! i) running (?t @ starts_of running (take i ss)) = None"
  proof (intro allI impI)
    fix i assume "i < length ss"
    then have "Suc i < length (s # ss)" by simp
    from Cons.prems [rule_format, OF this]
    show "svc_Start (ss ! i) running (?t @ starts_of running (take i ss)) = None"
      by (simp add: starts_of_def)
  qed
  show ?case using Cons.IH [OF rest] s by (simp add: starts_of_def)
qed

lemma startServices_fail_at:
  assumes "\<forall>i < length pre. svc_Start (pre ! i) running (t @ starts_of running (take i pre)) = None"
    and "svc_Start B running (t @ starts_of running pre) = Some E"
  shows "startServices running started (pre @ B # post) t =
         (Some E, t @ starts_of running pre @ [SvcStart (svc_id B) running] @ stops_of (started @ pre) @ [P2PStop])"
  using assms
proof (induction pre arbitrary: started t)
  case Nil
  then show ?case by (simp add: stopEach_eq)
next
  case (Cons s ss)
  from Cons.prems(1) have s: "svc_Start s running t = None" by force
  let ?t = "t @ [SvcStart (svc_id s) running]"
  have rest: "\<forall>i < length ss.
                svc_Start (ss ! i) running (?t @ starts_of running (take i ss)) = None"
  proof (intro allI impI)
    fix i assume "i < length ss"
    then have "Suc i < length (s # ss)" by simp
    from Cons.prems(1) [rule_format, OF this]
    show "svc_Start (ss ! i) running (?t @ starts_of running (take i ss)) = None"
      by (simp add: starts_of_def)
  qed
  have b: "svc_Start B running (?t @ starts_of running ss) = Some E"
    using Cons.prems(2) by (simp add: starts_of_def)
  show ?case using Cons.IH [OF rest b, of "started @ [s]"] s by (simp add: starts_of_def)
qed

lemma startServices_None_trace:
  "startServices running started ss t = (None, t2) \<Longrightarrow> t2 = t @ starts_of running ss"
proof (induction ss arbitrary: started t)
  case Nil
  then show ?case by simp
next
  case (Cons s ss)
  show ?case
  proof (cases "svc_Start s running t")
    case None
    with Cons.prems have "startServices running (started @ [s]) ss (t @ [SvcStart (svc_id s) running]) = (None, t2)"
      by simp
    from Cons.IH [OF this] show ?thesis by (simp add: starts_of_def)
  next
    case (Some e)
    with Cons.prems show ?thesis by simp
  qed
qed

lemma registerAll_trace:
  "registerAll env ev apis regd t = (None, regd', t') \<Longrightarrow>
   regd' = regd @ api_table apis \<and> t' = t @ map (\<lambda>a. ev (Namespace a) (Service a)) apis"
proof (induction apis arbitrary: regd t)
  case Nil
  then show ?case by (simp add: api_table_def)
next
  case (Cons a apis)
  obtain r rg where rn: "RegisterName env regd (Namespace a) (Service a) = (r, rg)" by force
  show ?case
  proof (cases r)
    case None
    from rn None have rg: "rg = regd @ [(Namespace a, Service a)]"
      by (auto simp: RegisterName_def split: if_splits option.splits)
    from Cons.prems rn None have "registerAll env ev apis rg (t @ [ev (Namespace a) (Service a)]) = (None, regd', t')"
      by simp
    from Cons.IH [OF this] rg show ?thesis by (simp add: api_table_def)
  next
    case (Some e)
    with Cons.prems rn show ?thesis by simp
  qed
qed

lemma registerAll_duplicate:
  "\<not> distinct (map Namespace apis) \<or> (\<exists>a \<in> set apis. Namespace a \<in> set (map fst regd))
   \<Longrightarrow> \<exists>err rg t'. registerAll env ev apis regd t = (Some err, rg, t')"
proof (induction apis arbitrary: regd t)
  case Nil
  then show ?case by simp
next
  case (Cons a apis)
  obtain r rg where rn: "RegisterName env regd (Namespace a) (Service a) = (r, rg)" by force
  show ?case
  proof (cases r)
    case (Some e)
    with rn show ?thesis by simp
  next
    case None
    from rn None have rg: "rg = regd @ [(Namespace a, Service a)]" and fresh: "Namespace a \<notin> set (map fst regd)"
      by (auto simp: RegisterName_def split: if_splits option.splits)
    from Cons.prems fresh
    have "\<not> distinct (map Namespace apis) \<or> (\<exists>b \<in> set apis. Namespace b \<in> set (map fst rg))"
      unfolding rg by auto
    from Cons.IH [OF this] rn None show ?thesis by simp
  qed
qed

lemma startJSONRPC_trace:
  "startJSONRPC env conf apis t = (None, t') \<Longrightarrow>
   t' = t @ map (\<lambda>a. RPCRegister (Namespace a) (Service a)) apis
          @ [RPCListen (RPCAddr conf), RPCAccept (api_table apis)]"
  by (auto simp: startJSONRPC_def split: prod.splits option.splits dest!: registerAll_trace)

lemma startHTTPRPC_trace:
  "startHTTPRPC env h conf apis wh cors t = (None, t') \<Longrightarrow>
   t' = t @ [HTTPNew (slice_elems h wh) (slice_elems h cors)]
          @ map (\<lambda>a. HTTPRegister (Namespace a) (Service a)) apis
          @ [HTTPHandle, HTTPListen (HTTPAddr conf), HTTPServe (api_table apis)]"
  by (auto simp: startHTTPRPC_def split: prod.splits option.splits dest!: registerAll_trace)

lemma startRPC_trace:
  assumes "startRPC env h conf svcs t = (None, t')"
  shows "t' = t @ map (\<lambda>a. RPCRegister (Namespace a) (Service a)) (concat (map svc_APIs svcs))
          @ [RPCListen (RPCAddr conf), RPCAccept (api_table (concat (map svc_APIs svcs)))]
          @ [HTTPNew (slice_elems h (HTTPWhiteHost conf)) (slice_elems h (HTTPCors conf))]
          @ map (\<lambda>a. HTTPRegister (Namespace a) (Service a)) (concat (map svc_APIs svcs))
          @ [HTTPHandle, HTTPListen (HTTPAddr conf), HTTPServe (api_table (concat (map svc_APIs svcs)))]"
proof -
  let ?apis = "concat (map svc_APIs svcs)"
  from assms obtain t1 where j: "startJSONRPC env conf ?apis t = (None, t1)"
    and hh: "startHTTPRPC env h conf ?apis (HTTPWhiteHost conf) (HTTPCors conf) t1 = (None, t')"
    by (auto simp: startRPC_def Let_def split: prod.splits option.splits)
  from startJSONRPC_trace [OF j] startHTTPRPC_trace [OF hh] show ?thesis by simp
qed

lemma Start_idle:
  assumes "server n = None" "deref h (config n) = Some conf"
  shows "Start env h n t =
     (case p2p_Start env (server_of conf (services n)) t of
        Some err \<Rightarrow> Some (Some ErrServiceStartFailed, n\<lparr>serverConfig := P2P conf\<rparr>,
                         t @ [P2PStart (server_of conf (services n))])
      | None \<Rightarrow>
         (case startServices (server_of conf (services n)) [] (services n)
                 (t @ [P2PStart (server_of conf (services n))]) of
            (Some err, t2) \<Rightarrow> Some (Some err, n\<lparr>serverConfig := P2P conf\<rparr>, t2)
          | (None, t2) \<Rightarrow>
             (case startRPC env h conf (services n) t2 of
                (Some err, t3) \<Rightarrow>
                  Some (Some err, n\<lparr>serverConfig := P2P conf\<rparr>,
                        t3 @ stops_of (services n) @ [P2PStop])
              | (None, t3) \<Rightarrow>
                  Some (None, n\<lparr>serverConfig := P2P conf,
                                 server := Some (server_of conf (services n))\<rparr>, t3))))"
  using assms
  by (simp add: Start_def Let_def server_of_def stopEach_eq
        cong: option.case_cong prod.case_cong)

text \<open>
  C6. On an Idle node whose config pointer is valid, if \<open>Start\<close> of the p2p server
  fails, \<open>Start\<close> returns \<open>ErrServiceStartFailed\<close>; the only call made is the one on
  the p2p server, so no service has had \<open>Start\<close> invoked; the node is still Idle and
  has the same services.
\<close>

theorem Start_transport_failure:
  assumes "server n = None"
    and "deref h (config n) = Some conf"
    and "p2p_Start env (server_of conf (services n)) t = Some err"
  shows "Start env h n t =
           Some (Some ErrServiceStartFailed, n\<lparr>serverConfig := P2P conf\<rparr>,
                 t @ [P2PStart (server_of conf (services n))])
       \<and> server (n\<lparr>serverConfig := P2P conf\<rparr>) = None
       \<and> services (n\<lparr>serverConfig := P2P conf\<rparr>) = services n"
  using assms by (simp add: Start_idle)

text \<open>
  C1. On an Idle node whose services are \<open>pre\<close>, then \<open>B\<close>, then \<open>post\<close>, where the
  p2p server and the services of \<open>pre\<close> start and \<open>Start\<close> of \<open>B\<close> returns \<open>E\<close>:
  \<open>Start\<close> returns \<open>E\<close> itself; the calls made are the start of the p2p server, of
  the services of \<open>pre\<close> in order and of \<open>B\<close>, then one \<open>Stop\<close> of each service of
  \<open>pre\<close> in the order they were started, then the stop of the p2p server; no service
  of \<open>post\<close> is started; the node is Idle. With \<open>pre = [A]\<close> and \<open>post = [C]\<close> these
  are the services A, B, C of the claim.
\<close>

theorem Start_partial_rollback:
  assumes idle: "server n = None"
    and conf: "deref h (config n) = Some conf"
    and svcs: "services n = pre @ B # post"
    and running: "running = server_of conf (services n)"
    and p2p: "p2p_Start env running t = None"
    and pre_ok: "\<forall>i < length pre.
                   svc_Start (pre ! i) running
                     (t @ [P2PStart running] @ starts_of running (take i pre)) = None"
    and B_fails: "svc_Start B running (t @ [P2PStart running] @ starts_of running pre) = Some E"
  shows "Start env h n t =
           Some (Some E, n\<lparr>serverConfig := P2P conf\<rparr>,
                 t @ [P2PStart running] @ starts_of running pre @ [SvcStart (svc_id B) running]
                   @ stops_of pre @ [P2PStop])
       \<and> server (n\<lparr>serverConfig := P2P conf\<rparr>) = None"
proof -
  have a: "\<forall>i < length pre.
             svc_Start (pre ! i) running ((t @ [P2PStart running]) @ starts_of running (take i pre)) = None"
    using pre_ok by simp
  have b: "svc_Start B running ((t @ [P2PStart running]) @ starts_of running pre) = Some E"
    using B_fails by simp
  have "startServices running [] (pre @ B # post) (t @ [P2PStart running]) =
          (Some E, (t @ [P2PStart running]) @ starts_of running pre @ [SvcStart (svc_id B) running]
                     @ stops_of ([] @ pre) @ [P2PStop])"
    by (rule startServices_fail_at [OF a b])
  then show ?thesis
    using idle p2p by (simp add: Start_idle [OF idle conf] svcs [symmetric] running [symmetric])
qed

text \<open>
  C5. On a Running node (its p2p server is set, which is the case after a successful
  \<open>Start\<close>), \<open>Start\<close> and \<open>Register\<close> return \<open>ErrNodeRunning\<close>, make no call and
  leave the node as it was.
\<close>

theorem Running_rejects_Start_and_Register:
  "(server n \<noteq> None \<longrightarrow>
      Start env h n t = Some (Some ErrNodeRunning, n, t)
      \<and> Register n s = (Some ErrNodeRunning, n))
   \<and> (Start env h n0 t0 = Some (None, n, t) \<longrightarrow> server n \<noteq> None)"
proof -
  have "server n \<noteq> None" if "Start env h n0 t0 = Some (None, n, t)"
    using that
    by (auto simp: Start_def Let_def split: if_splits option.splits prod.splits)
  then show ?thesis by (auto simp: Start_def Register_def)
qed

lemma startRPC_cases:
  "startRPC env h conf svcs t = (Some err, t3) \<longleftrightarrow>
     startJSONRPC env conf (concat (map svc_APIs svcs)) t = (Some err, t3)
     \<or> (\<exists>t1. startJSONRPC env conf (concat (map svc_APIs svcs)) t = (None, t1)
           \<and> startHTTPRPC env h conf (concat (map svc_APIs svcs)) (HTTPWhiteHost conf) (HTTPCors conf) t1
               = (Some err, t3))"
  by (auto simp: startRPC_def Let_def split: prod.splits option.splits)

lemma startJSONRPC_duplicate:
  assumes "\<not> distinct (map Namespace apis)"
  shows "\<exists>err t'. startJSONRPC env conf apis t = (Some err, t')"
proof -
  from assms have "\<not> distinct (map Namespace apis) \<or> (\<exists>a \<in> set apis. Namespace a \<in> set (map fst []))"
    by simp
  from registerAll_duplicate [OF this, of env RPCRegister t]
  obtain err rg t' where "registerAll env RPCRegister apis [] t = (Some err, rg, t')" by blast
  then show ?thesis by (simp add: startJSONRPC_def)
qed

text \<open>
  C3. On an Idle node where the p2p server and every service start: if the raw-socket
  listener fails, or it succeeds and the HTTP listener fails, with error \<open>err\<close>, then
  \<open>Start\<close> returns \<open>err\<close>, after the calls of the failed bootstrap it stops every
  registered service in order and then the p2p server, and the node is Idle. Two APIs
  with the same namespace make the raw-socket bootstrap fail.
\<close>

theorem Start_rpc_failure_rollback:
  assumes idle: "server n = None"
    and conf: "deref h (config n) = Some conf"
    and running: "running = server_of conf (services n)"
    and apis: "apis = concat (map svc_APIs (services n))"
    and p2p: "p2p_Start env running t = None"
    and started: "\<forall>i < length (services n).
                   svc_Start (services n ! i) running
                     (t @ [P2PStart running] @ starts_of running (take i (services n))) = None"
    and t2: "t2 = t @ [P2PStart running] @ starts_of running (services n)"
  shows "(startJSONRPC env conf apis t2 = (Some err, t3)
          \<or> (\<exists>t1. startJSONRPC env conf apis t2 = (None, t1)
                \<and> startHTTPRPC env h conf apis (HTTPWhiteHost conf) (HTTPCors conf) t1 = (Some err, t3))
          \<longrightarrow> Start env h n t =
                Some (Some err, n\<lparr>serverConfig := P2P conf\<rparr>, t3 @ stops_of (services n) @ [P2PStop])
              \<and> server (n\<lparr>serverConfig := P2P conf\<rparr>) = None)
       \<and> (\<not> distinct (map Namespace apis)
          \<longrightarrow> (\<exists>e t'. startJSONRPC env conf apis t2 = (Some e, t')
                  \<and> Start env h n t =
                      Some (Some e, n\<lparr>serverConfig := P2P conf\<rparr>,
                            t' @ stops_of (services n) @ [P2PStop])))"
proof -
  have a: "\<forall>i < length (services n).
             svc_Start (services n ! i) running
               ((t @ [P2PStart running]) @ starts_of running (take i (services n))) = None"
    using started by simp
  have ss: "startServices running [] (services n) (t @ [P2PStart running]) = (None, t2)"
    using startServices_all_ok [OF a, of "[]"] by (simp add: t2)
  have "Start env h n t =
          Some (Some e, n\<lparr>serverConfig := P2P conf\<rparr>, t' @ stops_of (services n) @ [P2PStop])"
    if "startRPC env h conf (services n) t2 = (Some e, t')" for e t'
    using that p2p ss by (simp add: Start_idle [OF idle conf] running [symmetric])
  then have rollback: "Start env h n t =
          Some (Some e, n\<lparr>serverConfig := P2P conf\<rparr>, t' @ stops_of (services n) @ [P2PStop])"
    if "startJSONRPC env conf apis t2 = (Some e, t')
        \<or> (\<exists>t1. startJSONRPC env conf apis t2 = (None, t1)
              \<and> startHTTPRPC env h conf apis (HTTPWhiteHost conf) (HTTPCors conf) t1 = (Some e, t'))"
    for e t'
    using that by (simp add: startRPC_cases apis)
  have dup: "\<exists>e t'. startJSONRPC env conf apis t2 = (Some e, t')
                  \<and> Start env h n t =
                      Some (Some e, n\<lparr>serverConfig := P2P conf\<rparr>,
                            t' @ stops_of (services n) @ [P2PStop])"
    if "\<not> distinct (map Namespace apis)"
  proof -
    from startJSONRPC_duplicate [OF that, of env conf t2]
    obtain e t' where j: "startJSONRPC env conf apis t2 = (Some e, t')" by blast
    with rollback [of e t'] show ?thesis by blast
  qed
  from rollback dup idle show ?thesis by simp
qed

lemma stopServices_eq:
  "stopServices ss m t = (fold (\<lambda>(ty, err). fmupd ty err) (stop_failures ss t) m, t @ stops_of ss)"
proof (induction ss arbitrary: m t)
  case Nil
  show ?case by (simp add: stops_of_def)
next
  case (Cons s ss)
  show ?case by (cases "svc_Stop s t") (simp_all add: Cons.IH stops_of_def)
qed

lemma fold_fmupd_lookup:
  "fmlookup (fold (\<lambda>(ty, err). fmupd ty err) fs m) k =
     (case map_of (rev fs) k of Some e \<Rightarrow> Some e | None \<Rightarrow> fmlookup m k)"
proof (induction fs arbitrary: m)
  case Nil
  show ?case by simp
next
  case (Cons f fs)
  obtain ty err where f: "f = (ty, err)" by (cases f)
  show ?case
    by (simp add: Cons.IH f map_add_def split: option.splits)
qed

lemma fold_fmupd_empty:
  "fold (\<lambda>(ty, err). fmupd ty err) fs fmempty = fmempty \<longleftrightarrow> fs = []"
proof (cases fs rule: rev_cases)
  case Nil
  then show ?thesis by simp
next
  case (snoc ys y)
  obtain ty err where y: "y = (ty, err)" by (cases y)
  have "fmlookup (fold (\<lambda>(ty, err). fmupd ty err) fs fmempty) ty = Some err"
    by (simp add: fold_fmupd_lookup snoc y)
  then have "fold (\<lambda>(ty, err). fmupd ty err) fs fmempty \<noteq> fmempty" by auto
  then show ?thesis using snoc by simp
qed

lemma holds_each_error_distinct:
  assumes "distinct (map fst fs)" "\<forall>ty. fmlookup m ty = map_of (rev fs) ty"
  shows "holds_each_error m fs"
proof -
  have "map_of (rev fs) ty = Some err" if "(ty, err) \<in> set fs" for ty err
    using that assms(1) by (intro map_of_is_SomeI) (simp_all add: rev_map [symmetric])
  then show ?thesis
    using assms(2) by (auto simp: holds_each_error_def list_all_iff)
qed

text \<open>
  C2, as amended. On a Running node, \<open>Stop\<close> calls \<open>Stop\<close> of every registered
  service in order, then stops the p2p server, and leaves the node Idle with no
  services, whatever the services returned. It returns nil exactly when no service
  failed to stop, and otherwise a \<open>StopError\<close> whose map has, for each runtime type,
  the error of the last service of that type that failed; when the failing services
  have pairwise different types the map holds the error of each of them.
\<close>

theorem Stop_aggregates_by_type:
  assumes "server n \<noteq> None"
  shows "\<exists>r. Stop n t = (r, n\<lparr>services := [], server := None\<rparr>, t @ stops_of (services n) @ [P2PStop])
           \<and> (r = None \<longleftrightarrow> stop_failures (services n) t = [])
           \<and> (\<forall>e. r = Some e \<longrightarrow>
                 (\<exists>m. e = StopError m
                    \<and> (\<forall>ty. fmlookup m ty = map_of (rev (stop_failures (services n) t)) ty)
                    \<and> (distinct (map fst (stop_failures (services n) t)) \<longrightarrow>
                         holds_each_error m (stop_failures (services n) t))))"
proof -
  let ?fs = "stop_failures (services n) t"
  let ?m = "fold (\<lambda>(ty, err). fmupd ty err) ?fs fmempty"
  have look: "\<forall>ty. fmlookup ?m ty = map_of (rev ?fs) ty"
    by (simp add: fold_fmupd_lookup split: option.splits)
  have stop: "Stop n t =
          (if ?fs \<noteq> [] then Some (StopError ?m) else None,
           n\<lparr>services := [], server := None\<rparr>, t @ stops_of (services n) @ [P2PStop])"
    using assms by (simp add: Stop_def stopServices_eq Let_def fold_fmupd_empty)
  show ?thesis
  proof (cases "?fs = []")
    case True
    with stop show ?thesis by simp
  next
    case False
    with stop look holds_each_error_distinct [of ?fs ?m] show ?thesis by auto
  qed
qed

text \<open>
  C7. \<open>Restart\<close> is \<open>Stop\<close> followed by \<open>Start\<close>: when \<open>Stop\<close> returns nil,
  \<open>Restart\<close> is \<open>Start\<close> on the node and history that \<open>Stop\<close> left; when \<open>Stop\<close>
  returns an error, \<open>Restart\<close> returns that error with the node and history that
  \<open>Stop\<close> left, which holds no call of a \<open>Start\<close>.
\<close>

theorem Restart_is_Stop_then_Start:
  "Restart env h n t = Stop_then_Start env h n t
   \<and> (\<forall>n1 t1. Stop n t = (None, n1, t1) \<longrightarrow> Restart env h n t = Start env h n1 t1)
   \<and> (\<forall>err n1 t1. Stop n t = (Some err, n1, t1) \<longrightarrow>
         Restart env h n t = Some (Some err, n1, t1)
         \<and> (t1 = t \<or> t1 = t @ stops_of (services n) @ [P2PStop]))"
proof -
  have a: "Restart env h n t = Start env h n1 t1" if "Stop n t = (None, n1, t1)" for n1 t1
    using that by (simp add: Restart_def split: option.splits prod.splits)
  have b: "Restart env h n t = Some (Some err, n1, t1)"
    if "Stop n t = (Some err, n1, t1)" for err n1 t1
    using that by (simp add: Restart_def)
  have c: "t1 = t \<or> t1 = t @ stops_of (services n) @ [P2PStop]"
    if "Stop n t = (Some err, n1, t1)" for err n1 t1
    using that by (auto simp: Stop_def stopServices_eq Let_def split: if_splits)
  have d: "Restart env h n t = Stop_then_Start env h n t"
  proof (cases "Stop n t")
    case (fields r n1 t1)
    then show ?thesis
      by (cases r) (simp_all add: a b Stop_then_Start_def)
  qed
  from a b c d show ?thesis by blast
qed

lemma Stop_success:
  assumes "Stop n t = (None, n1, t1)"
  shows "server n \<noteq> None \<and> n1 = n\<lparr>services := [], server := None\<rparr>
         \<and> t1 = t @ stops_of (services n) @ [P2PStop]"
  using assms by (auto simp: Stop_def stopServices_eq Let_def split: if_splits)

lemma Start_success_trace:
  assumes "Start env h n t = Some (None, n', t')" and conf: "deref h (config n) = Some conf"
  shows "server n = None
       \<and> n' = n\<lparr>serverConfig := P2P conf, server := Some (server_of conf (services n))\<rparr>
       \<and> t' = t @ [P2PStart (server_of conf (services n))]
               @ starts_of (server_of conf (services n)) (services n)
               @ map (\<lambda>a. RPCRegister (Namespace a) (Service a)) (concat (map svc_APIs (services n)))
               @ [RPCListen (RPCAddr conf), RPCAccept (api_table (concat (map svc_APIs (services n))))]
               @ [HTTPNew (slice_elems h (HTTPWhiteHost conf)) (slice_elems h (HTTPCors conf))]
               @ map (\<lambda>a. HTTPRegister (Namespace a) (Service a)) (concat (map svc_APIs (services n)))
               @ [HTTPHandle, HTTPListen (HTTPAddr conf),
                  HTTPServe (api_table (concat (map svc_APIs (services n))))]"
proof -
  let ?run = "server_of conf (services n)"
  from assms(1) have idle: "server n = None" by (auto simp: Start_def split: if_splits)
  from assms(1) obtain t2 where
    ss: "startServices ?run [] (services n) (t @ [P2PStart ?run]) = (None, t2)"
    and rpc: "startRPC env h conf (services n) t2 = (None, t')"
    and n': "n' = n\<lparr>serverConfig := P2P conf, server := Some ?run\<rparr>"
    by (auto simp: Start_idle [OF idle conf] split: option.splits prod.splits)
  from startServices_None_trace [OF ss] startRPC_trace [OF rpc] idle n'
  show ?thesis by simp
qed

lemma own_accept_starts:
  "registered_before_own_accept nss rj rh (starts_of running ss @ es) =
   registered_before_own_accept nss rj rh es"
  by (induction ss) (simp_all add: starts_of_def)

lemma own_accept_rpc_registers:
  "registered_before_own_accept nss rj rh
     (map (\<lambda>a. RPCRegister (Namespace a) (Service a)) apis @ es) =
   registered_before_own_accept nss (rev (map Namespace apis) @ rj) rh es"
  by (induction apis arbitrary: rj) simp_all

lemma own_accept_http_registers:
  "registered_before_own_accept nss rj rh
     (map (\<lambda>a. HTTPRegister (Namespace a) (Service a)) apis @ es) =
   registered_before_own_accept nss rj (rev (map Namespace apis) @ rh) es"
  by (induction apis arbitrary: rh) simp_all

text \<open>
  C4, as amended. A successful \<open>Start\<close> makes these calls in this order: every API of
  the aggregate is registered on the raw-socket server, its listener is bound and its
  accept loop launched; only then is the HTTP server made, every API registered on it,
  its listener bound and its serving loop launched. So each listener has every
  namespace registered on its own server before it begins accepting.
\<close>

theorem Start_registers_before_own_accept:
  assumes ok: "Start env h n t = Some (None, n', t')"
    and conf: "deref h (config n) = Some conf"
    and apis: "apis = concat (map svc_APIs (services n))"
    and running: "running = server_of conf (services n)"
  shows "\<exists>evs. t' = t @ evs
          \<and> evs = [P2PStart running] @ starts_of running (services n)
                  @ map (\<lambda>a. RPCRegister (Namespace a) (Service a)) apis
                  @ [RPCListen (RPCAddr conf), RPCAccept (api_table apis)]
                  @ [HTTPNew (slice_elems h (HTTPWhiteHost conf)) (slice_elems h (HTTPCors conf))]
                  @ map (\<lambda>a. HTTPRegister (Namespace a) (Service a)) apis
                  @ [HTTPHandle, HTTPListen (HTTPAddr conf), HTTPServe (api_table apis)]
          \<and> registered_before_own_accept (map Namespace apis) [] [] evs"
proof -
  let ?evs = "[P2PStart running] @ starts_of running (services n)
                  @ map (\<lambda>a. RPCRegister (Namespace a) (Service a)) apis
                  @ [RPCListen (RPCAddr conf), RPCAccept (api_table apis)]
                  @ [HTTPNew (slice_elems h (HTTPWhiteHost conf)) (slice_elems h (HTTPCors conf))]
                  @ map (\<lambda>a. HTTPRegister (Namespace a) (Service a)) apis
                  @ [HTTPHandle, HTTPListen (HTTPAddr conf), HTTPServe (api_table apis)]"
  have t': "t' = t @ ?evs"
    using Start_success_trace [OF ok conf] by (simp add: apis running)
  have "registered_before_own_accept (map Namespace apis) [] [] ?evs"
    by (simp add: own_accept_starts own_accept_rpc_registers own_accept_http_registers
          list_all_iff)
  with t' show ?thesis by blast
qed

text \<open>
  C8. When \<open>Restart\<close> (or \<open>Stop\<close> then \<open>Start\<close>) succeeds, the node is Running with
  no services: after the stops, the p2p server is started with an empty protocol
  list, no service is started, and both rpc servers have an empty table when their
  loops are launched.
\<close>

theorem Restart_starts_zero_services:
  assumes conf: "deref h (config n) = Some conf"
    and ok: "Restart env h n t = Some (None, n', t')
             \<or> (\<exists>n1 t1. Stop n t = (None, n1, t1) \<and> Start env h n1 t1 = Some (None, n', t'))"
  shows "services n' = []
       \<and> server n' = Some \<lparr>Server_Config = P2P conf, Server_Protocols = []\<rparr>
       \<and> t' = t @ stops_of (services n)
               @ [P2PStop,
                  P2PStart \<lparr>Server_Config = P2P conf, Server_Protocols = []\<rparr>,
                  RPCListen (RPCAddr conf), RPCAccept [],
                  HTTPNew (slice_elems h (HTTPWhiteHost conf)) (slice_elems h (HTTPCors conf)),
                  HTTPHandle, HTTPListen (HTTPAddr conf), HTTPServe []]"
proof -
  from ok obtain n1 t1 where stop: "Stop n t = (None, n1, t1)"
    and start: "Start env h n1 t1 = Some (None, n', t')"
    by (auto simp: Restart_def split: prod.splits option.splits)
  from Stop_success [OF stop] have n1: "n1 = n\<lparr>services := [], server := None\<rparr>"
    and t1: "t1 = t @ stops_of (services n) @ [P2PStop]" by simp_all
  have conf1: "deref h (config n1) = Some conf" using conf by (simp add: n1)
  from Start_success_trace [OF start conf1] show ?thesis
    by (simp add: n1 t1 server_of_def api_table_def)
qed

lemma slice_elems_arrays: "arrays h2 = arrays h1 \<Longrightarrow> slice_elems h2 s = slice_elems h1 s"
  by (cases s) (simp_all add: slice_elems_def)

lemma startHTTPRPC_arrays:
  "arrays h2 = arrays h1 \<Longrightarrow>
   startHTTPRPC env h2 conf apis wh cors t = startHTTPRPC env h1 conf apis wh cors t"
  by (simp add: startHTTPRPC_def slice_elems_arrays [of h2 h1])

lemma startRPC_arrays:
  "arrays h2 = arrays h1 \<Longrightarrow> startRPC env h2 conf ss t = startRPC env h1 conf ss t"
  by (simp add: startRPC_def startHTTPRPC_arrays [of h2 h1]
        cong: prod.case_cong option.case_cong)

lemma Start_heap_cong:
  assumes "deref h2 (config n) = deref h1 (config n)" "arrays h2 = arrays h1"
  shows "Start env h2 n t = Start env h1 n t"
  using assms
  by (simp add: Start_def startRPC_arrays [of h2 h1] cong: prod.case_cong option.case_cong)

lemma mutate_field_assignment:
  assumes "field_assignment m" "mutate h p m = Some h'"
  shows "arrays h' = arrays h \<and> length (structs h') = length (structs h)
         \<and> (\<forall>q. q \<noteq> p \<longrightarrow> deref h' q = deref h q)"
  using assms by (cases m) (auto simp: deref_def store_struct_def split: if_splits)

lemma mutate_all_field_assignments:
  assumes "list_all field_assignment ms" "mutate_all h p ms = Some h'"
  shows "arrays h' = arrays h \<and> (\<forall>q. q \<noteq> p \<longrightarrow> deref h' q = deref h q)"
  using assms
proof (induction ms arbitrary: h)
  case Nil
  then show ?case by simp
next
  case (Cons m ms)
  from Cons.prems(2) obtain h1 where m: "mutate h p m = Some h1" and rest: "mutate_all h1 p ms = Some h'"
    by (auto split: option.splits)
  from Cons.prems(1) have fa: "field_assignment m" and fas: "list_all field_assignment ms" by simp_all
  from mutate_field_assignment [OF fa m] Cons.IH [OF fas rest] show ?case by simp
qed

text \<open>
  C9, as amended. \<open>New\<close> stores a copy of the struct of the caller; the copy reads as
  the caller's config did when \<open>New\<close> was called, and after any assignments to fields
  of the caller's config object the stored config and the result of a later \<open>Start\<close>
  are unchanged.
\<close>

theorem New_copy_survives_field_assignments:
  assumes new: "New h p = Some (n, e, h1)"
    and fas: "list_all field_assignment ms"
    and muts: "mutate_all h1 p ms = Some h2"
  shows "stored_config h2 n = stored_config h1 n
       \<and> stored_config h1 n =
           map_option (\<lambda>c. (P2P c, RPCAddr c, HTTPAddr c,
                             slice_elems h (HTTPWhiteHost c), slice_elems h (HTTPCors c)))
             (deref h p)
       \<and> (\<forall>n'. config n' = config n \<longrightarrow> Start env h2 n' t = Start env h1 n' t)"
proof -
  from new obtain c where c: "deref h p = Some c" and n: "config n = length (structs h)"
    and h1: "h1 = h\<lparr>structs := structs h @ [c]\<rparr>"
    by (auto simp: New_def split: option.splits)
  from c have p: "p < length (structs h)" by (auto simp: deref_def split: if_splits)
  then have ne: "config n \<noteq> p" using n by simp
  from mutate_all_field_assignments [OF fas muts] ne
  have arr: "arrays h2 = arrays h1" and d: "deref h2 (config n) = deref h1 (config n)" by simp_all
  have a: "stored_config h2 n = stored_config h1 n"
    by (simp add: stored_config_def d slice_elems_arrays [OF arr])
  have b: "stored_config h1 n =
           map_option (\<lambda>c. (P2P c, RPCAddr c, HTTPAddr c,
                             slice_elems h (HTTPWhiteHost c), slice_elems h (HTTPCors c)))
             (deref h p)"
  proof -
    have arr1: "arrays h1 = arrays h" by (simp add: h1)
    have "deref h1 (config n) = Some c" by (simp add: h1 n deref_def)
    then show ?thesis
      by (simp add: stored_config_def c slice_elems_arrays [OF arr1])
  qed
  have "Start env h2 n' t = Start env h1 n' t" if "config n' = config n" for n'
    using that d arr by (intro Start_heap_cong) simp_all
  with a b show ?thesis by blast
qed

section \<open>Runs on the concrete inputs\<close>

lemmas concrete_defs =
  Start_def Stop_def Restart_def New_def Register_def startRPC_def startJSONRPC_def
  startHTTPRPC_def RegisterName_def deref_def slice_elems_def Let_def
  env_ok_def env_p2p_down_def env_http_busy_def svcA_def svcB_def svcC_def svcA1_def svcA2_def
  fixed_service_def heap0_def heap1_def heap_evil_def conf0_def server_of_def
  idle_node_def running_node_def starts_of_def stops_of_def api_table_def

lemma svc_ids:
  "svc_id svcA = 1" "svc_id svcB = 2" "svc_id svcC = 3" "svc_id svcA2 = 4" "svc_id svcA1 = 5"
  by (simp_all add: svcA_def svcB_def svcC_def svcA2_def svcA1_def fixed_service_def)

lemma fixed_service_answers:
  "svc_Start (fixed_service i ty ns a b) srv t = a"
  "svc_Stop (fixed_service i ty ns a b) t = b"
  "svc_type (fixed_service i ty ns a b) = ty"
  "svc_id (fixed_service i ty ns a b) = i"
  "svc_Protocols (fixed_service i ty ns a b) = [ns]"
  "svc_APIs (fixed_service i ty ns a b) = [\<lparr>Namespace = ns, Service = ns @ ''API''\<rparr>]"
  by (simp_all add: fixed_service_def)

lemma idle_node_fields:
  "server (idle_node ss) = None" "services (idle_node ss) = ss" "config (idle_node ss) = 1"
  by (simp_all add: idle_node_def)

lemma running_node_fields:
  "server (running_node ss) = Some (server_of conf0 ss)" "services (running_node ss) = ss"
  "config (running_node ss) = 1"
  by (simp_all add: running_node_def)

lemma deref_heap1:
  "deref heap1 (config (idle_node ss)) = Some conf0"
  "deref heap1 (config (running_node ss)) = Some conf0"
  by (simp_all add: heap1_def deref_def idle_node_def running_node_def)

text \<open>
  C1 on the services A, B, C of the claim: B fails to start with \<open>E\<close>.
\<close>

theorem Start_partial_rollback_witness:
  "server (idle_node [svcA, svcB, svcC]) = None
   \<and> deref heap1 (config (idle_node [svcA, svcB, svcC])) = Some conf0
   \<and> p2p_Start env_ok (server_of conf0 [svcA, svcB, svcC]) [] = None
   \<and> svc_Start svcA (server_of conf0 [svcA, svcB, svcC])
        [P2PStart (server_of conf0 [svcA, svcB, svcC])] = None
   \<and> svc_Start svcB (server_of conf0 [svcA, svcB, svcC])
        [P2PStart (server_of conf0 [svcA, svcB, svcC]),
         SvcStart 1 (server_of conf0 [svcA, svcB, svcC])] = Some (Other ''E'')
   \<and> Start env_ok heap1 (idle_node [svcA, svcB, svcC]) [] =
       Some (Some (Other ''E''),
             (idle_node [svcA, svcB, svcC])\<lparr>serverConfig := P2P conf0\<rparr>,
             [P2PStart (server_of conf0 [svcA, svcB, svcC]),
              SvcStart 1 (server_of conf0 [svcA, svcB, svcC]),
              SvcStart 2 (server_of conf0 [svcA, svcB, svcC]),
              SvcStop 1, P2PStop])"
proof -
  let ?n = "idle_node [svcA, svcB, svcC]"
  let ?run = "server_of conf0 [svcA, svcB, svcC]"
  have h1: "server ?n = None" by (simp add: idle_node_fields)
  have h2: "deref heap1 (config ?n) = Some conf0" by (rule deref_heap1)
  have h3: "services ?n = [svcA] @ svcB # [svcC]" by (simp add: idle_node_fields)
  have h4: "?run = server_of conf0 (services ?n)" by (simp add: idle_node_fields)
  have h5: "p2p_Start env_ok ?run [] = None" by (simp add: env_ok_def)
  have h6: "\<forall>i < length [svcA].
              svc_Start ([svcA] ! i) ?run ([] @ [P2PStart ?run] @ starts_of ?run (take i [svcA])) = None"
    by (simp add: svcA_def fixed_service_answers)
  have h7: "svc_Start svcB ?run ([] @ [P2PStart ?run] @ starts_of ?run [svcA]) = Some (Other ''E'')"
    by (simp add: svcB_def fixed_service_answers)
  have a: "svc_Start svcA ?run [P2PStart ?run] = None"
    by (simp add: svcA_def fixed_service_answers)
  have b: "svc_Start svcB ?run [P2PStart ?run, SvcStart 1 ?run] = Some (Other ''E'')"
    by (simp add: svcB_def fixed_service_answers)
  have "Start env_ok heap1 ?n [] =
       Some (Some (Other ''E''), ?n\<lparr>serverConfig := P2P conf0\<rparr>,
             [P2PStart ?run, SvcStart 1 ?run, SvcStart 2 ?run, SvcStop 1, P2PStop])"
    using Start_partial_rollback [OF h1 h2 h3 h4 h5 h6 h7]
    by (simp add: starts_of_def stops_of_def svc_ids)
  with h1 h2 h5 a b show ?thesis by blast
qed


text \<open>
  C6 where the p2p server refuses to start.
\<close>

theorem Start_transport_failure_witness:
  "server (idle_node [svcA, svcC]) = None
   \<and> deref heap1 (config (idle_node [svcA, svcC])) = Some conf0
   \<and> p2p_Start env_p2p_down (server_of conf0 [svcA, svcC]) [] = Some (Other ''no udp port'')
   \<and> Start env_p2p_down heap1 (idle_node [svcA, svcC]) [] =
       Some (Some ErrServiceStartFailed, (idle_node [svcA, svcC])\<lparr>serverConfig := P2P conf0\<rparr>,
             [P2PStart (server_of conf0 [svcA, svcC])])
   \<and> server ((idle_node [svcA, svcC])\<lparr>serverConfig := P2P conf0\<rparr>) = None"
proof -
  let ?n = "idle_node [svcA, svcC]"
  have h1: "server ?n = None" by (simp add: idle_node_fields)
  have h2: "deref heap1 (config ?n) = Some conf0" by (rule deref_heap1)
  have h3: "p2p_Start env_p2p_down (server_of conf0 (services ?n)) [] = Some (Other ''no udp port'')"
    by (simp add: env_p2p_down_def)
  from Start_transport_failure [OF h1 h2 h3] h1 h2 h3 show ?thesis
    by (simp add: idle_node_fields)
qed

text \<open>
  C5 on the node that a first successful \<open>Start\<close> leaves.
\<close>

theorem Running_rejects_Start_and_Register_witness:
  "Start env_ok heap1 (idle_node [svcA]) [] =
       Some (None, running_node [svcA],
             [P2PStart (server_of conf0 [svcA]), SvcStart 1 (server_of conf0 [svcA]),
              RPCRegister ''chain'' ''chainAPI'', RPCListen '':55027'',
              RPCAccept [(''chain'', ''chainAPI'')],
              HTTPNew [''localhost''] [''seele.pro''],
              HTTPRegister ''chain'' ''chainAPI'', HTTPHandle, HTTPListen '':65027'',
              HTTPServe [(''chain'', ''chainAPI'')]])
   \<and> server (running_node [svcA]) \<noteq> None
   \<and> Start env_ok heap1 (running_node [svcA])
         [P2PStart (server_of conf0 [svcA]), SvcStart 1 (server_of conf0 [svcA]),
          RPCRegister ''chain'' ''chainAPI'', RPCListen '':55027'',
          RPCAccept [(''chain'', ''chainAPI'')],
          HTTPNew [''localhost''] [''seele.pro''],
          HTTPRegister ''chain'' ''chainAPI'', HTTPHandle, HTTPListen '':65027'',
          HTTPServe [(''chain'', ''chainAPI'')]] =
       Some (Some ErrNodeRunning, running_node [svcA],
             [P2PStart (server_of conf0 [svcA]), SvcStart 1 (server_of conf0 [svcA]),
              RPCRegister ''chain'' ''chainAPI'', RPCListen '':55027'',
              RPCAccept [(''chain'', ''chainAPI'')],
              HTTPNew [''localhost''] [''seele.pro''],
              HTTPRegister ''chain'' ''chainAPI'', HTTPHandle, HTTPListen '':65027'',
              HTTPServe [(''chain'', ''chainAPI'')]])
   \<and> Register (running_node [svcA]) svcC = (Some ErrNodeRunning, running_node [svcA])"
proof -
  let ?t = "[P2PStart (server_of conf0 [svcA]), SvcStart 1 (server_of conf0 [svcA]),
              RPCRegister ''chain'' ''chainAPI'', RPCListen '':55027'',
              RPCAccept [(''chain'', ''chainAPI'')],
              HTTPNew [''localhost''] [''seele.pro''],
              HTTPRegister ''chain'' ''chainAPI'', HTTPHandle, HTTPListen '':65027'',
              HTTPServe [(''chain'', ''chainAPI'')]]"
  have first: "Start env_ok heap1 (idle_node [svcA]) [] = Some (None, running_node [svcA], ?t)"
    by (simp add: concrete_defs)
  note r = Running_rejects_Start_and_Register
             [of "running_node [svcA]" env_ok heap1 ?t svcC "idle_node [svcA]" "[]"]
  from r first have run: "server (running_node [svcA]) \<noteq> None" by blast
  from r run have second:
    "Start env_ok heap1 (running_node [svcA]) ?t = Some (Some ErrNodeRunning, running_node [svcA], ?t)
     \<and> Register (running_node [svcA]) svcC = (Some ErrNodeRunning, running_node [svcA])"
    by blast
  from first run second show ?thesis by blast
qed

text \<open>
  C3 where the HTTP address is in use, and where two services declare the namespace \<open>chain\<close>.
\<close>

theorem Start_rpc_failure_rollback_witness:
  "server (idle_node [svcA, svcC]) = None
   \<and> deref heap1 (config (idle_node [svcA, svcC])) = Some conf0
   \<and> p2p_Start env_http_busy (server_of conf0 [svcA, svcC]) [] = None
   \<and> startJSONRPC env_http_busy conf0 (concat (map svc_APIs [svcA, svcC]))
        [P2PStart (server_of conf0 [svcA, svcC]), SvcStart 1 (server_of conf0 [svcA, svcC]),
         SvcStart 3 (server_of conf0 [svcA, svcC])]
       = (None,
          [P2PStart (server_of conf0 [svcA, svcC]), SvcStart 1 (server_of conf0 [svcA, svcC]),
           SvcStart 3 (server_of conf0 [svcA, svcC]),
           RPCRegister ''chain'' ''chainAPI'', RPCRegister ''miner'' ''minerAPI'',
           RPCListen '':55027'',
           RPCAccept [(''chain'', ''chainAPI''), (''miner'', ''minerAPI'')]])
   \<and> Start env_http_busy heap1 (idle_node [svcA, svcC]) [] =
       Some (Some (Other ''address in use''),
             (idle_node [svcA, svcC])\<lparr>serverConfig := P2P conf0\<rparr>,
             [P2PStart (server_of conf0 [svcA, svcC]), SvcStart 1 (server_of conf0 [svcA, svcC]),
              SvcStart 3 (server_of conf0 [svcA, svcC]),
              RPCRegister ''chain'' ''chainAPI'', RPCRegister ''miner'' ''minerAPI'',
              RPCListen '':55027'',
              RPCAccept [(''chain'', ''chainAPI''), (''miner'', ''minerAPI'')],
              HTTPNew [''localhost''] [''seele.pro''],
              HTTPRegister ''chain'' ''chainAPI'', HTTPRegister ''miner'' ''minerAPI'',
              HTTPHandle, HTTPListen '':65027'',
              SvcStop 1, SvcStop 3, P2PStop])
   \<and> \<not> distinct (map Namespace (concat (map svc_APIs [svcA, svcA2])))
   \<and> Start env_ok heap1 (idle_node [svcA, svcA2]) [] =
       Some (Some (Other ''rpc: service already defined: chain''),
             (idle_node [svcA, svcA2])\<lparr>serverConfig := P2P conf0\<rparr>,
             [P2PStart (server_of conf0 [svcA, svcA2]),
              SvcStart 1 (server_of conf0 [svcA, svcA2]),
              SvcStart 4 (server_of conf0 [svcA, svcA2]),
              RPCRegister ''chain'' ''chainAPI'', RPCRegister ''chain'' ''chainAPI'',
              SvcStop 1, SvcStop 4, P2PStop])"
proof -
  let ?n = "idle_node [svcA, svcC]"
  let ?run = "server_of conf0 [svcA, svcC]"
  let ?apis = "concat (map svc_APIs [svcA, svcC])"
  let ?t2 = "[P2PStart ?run, SvcStart 1 ?run, SvcStart 3 ?run]"
  let ?t1 = "?t2 @ [RPCRegister ''chain'' ''chainAPI'', RPCRegister ''miner'' ''minerAPI'',
                    RPCListen '':55027'',
                    RPCAccept [(''chain'', ''chainAPI''), (''miner'', ''minerAPI'')]]"
  let ?t3 = "?t1 @ [HTTPNew [''localhost''] [''seele.pro''],
                    HTTPRegister ''chain'' ''chainAPI'', HTTPRegister ''miner'' ''minerAPI'',
                    HTTPHandle, HTTPListen '':65027'']"
  have idle: "server ?n = None" by (simp add: idle_node_fields)
  have conf: "deref heap1 (config ?n) = Some conf0" by (rule deref_heap1)
  have running: "?run = server_of conf0 (services ?n)" by (simp add: idle_node_fields)
  have apis: "?apis = concat (map svc_APIs (services ?n))" by (simp add: idle_node_fields)
  have p2p: "p2p_Start env_http_busy ?run [] = None" by (simp add: env_http_busy_def)
  have started: "\<forall>i < length (services ?n).
                   svc_Start (services ?n ! i) ?run
                     ([] @ [P2PStart ?run] @ starts_of ?run (take i (services ?n))) = None"
    by (simp add: idle_node_fields svcA_def svcC_def fixed_service_answers nth_Cons split: nat.split)
  have t2: "?t2 = [] @ [P2PStart ?run] @ starts_of ?run (services ?n)"
    by (simp add: idle_node_fields starts_of_def svc_ids)
  have json: "startJSONRPC env_http_busy conf0 ?apis ?t2 = (None, ?t1)"
    by (simp add: concrete_defs)
  have http: "startHTTPRPC env_http_busy heap1 conf0 ?apis (HTTPWhiteHost conf0) (HTTPCors conf0) ?t1
              = (Some (Other ''address in use''), ?t3)"
    by (simp add: concrete_defs)
  note r = Start_rpc_failure_rollback [OF idle conf running apis p2p started t2,
             of "Other ''address in use''" ?t3]
  from r json http
  have one: "Start env_http_busy heap1 ?n [] =
       Some (Some (Other ''address in use''), ?n\<lparr>serverConfig := P2P conf0\<rparr>,
             ?t3 @ stops_of (services ?n) @ [P2PStop])"
    by blast
  let ?m = "idle_node [svcA, svcA2]"
  let ?run2 = "server_of conf0 [svcA, svcA2]"
  let ?apis2 = "concat (map svc_APIs [svcA, svcA2])"
  let ?u2 = "[P2PStart ?run2, SvcStart 1 ?run2, SvcStart 4 ?run2]"
  have idle2: "server ?m = None" by (simp add: idle_node_fields)
  have conf2: "deref heap1 (config ?m) = Some conf0" by (rule deref_heap1)
  have running2: "?run2 = server_of conf0 (services ?m)" by (simp add: idle_node_fields)
  have apis2: "?apis2 = concat (map svc_APIs (services ?m))" by (simp add: idle_node_fields)
  have p2p2: "p2p_Start env_ok ?run2 [] = None" by (simp add: env_ok_def)
  have started2: "\<forall>i < length (services ?m).
                   svc_Start (services ?m ! i) ?run2
                     ([] @ [P2PStart ?run2] @ starts_of ?run2 (take i (services ?m))) = None"
    by (simp add: idle_node_fields svcA_def svcA2_def fixed_service_answers nth_Cons split: nat.split)
  have u2: "?u2 = [] @ [P2PStart ?run2] @ starts_of ?run2 (services ?m)"
    by (simp add: idle_node_fields starts_of_def svc_ids)
  have dup: "\<not> distinct (map Namespace ?apis2)"
    by (simp add: svcA_def svcA2_def fixed_service_answers)
  note r2 = Start_rpc_failure_rollback [OF idle2 conf2 running2 apis2 p2p2 started2 u2]
  have json2: "startJSONRPC env_ok conf0 ?apis2 ?u2 =
                 (Some (Other ''rpc: service already defined: chain''),
                  ?u2 @ [RPCRegister ''chain'' ''chainAPI'', RPCRegister ''chain'' ''chainAPI''])"
    by (simp add: concrete_defs)
  from r2 dup obtain e t' where j: "startJSONRPC env_ok conf0 ?apis2 ?u2 = (Some e, t')"
    and st: "Start env_ok heap1 ?m [] =
               Some (Some e, ?m\<lparr>serverConfig := P2P conf0\<rparr>, t' @ stops_of (services ?m) @ [P2PStop])"
    by blast
  from j json2 have "e = Other ''rpc: service already defined: chain''"
    and "t' = ?u2 @ [RPCRegister ''chain'' ''chainAPI'', RPCRegister ''chain'' ''chainAPI'']"
    by simp_all
  with st have two: "Start env_ok heap1 ?m [] =
       Some (Some (Other ''rpc: service already defined: chain''),
             ?m\<lparr>serverConfig := P2P conf0\<rparr>,
             ?u2 @ [RPCRegister ''chain'' ''chainAPI'', RPCRegister ''chain'' ''chainAPI'',
                    SvcStop 1, SvcStop 4, P2PStop])"
    by (simp add: idle_node_fields stops_of_def svc_ids)
  from one have one': "Start env_http_busy heap1 ?n [] =
       Some (Some (Other ''address in use''), ?n\<lparr>serverConfig := P2P conf0\<rparr>,
             ?t3 @ [SvcStop 1, SvcStop 3, P2PStop])"
    by (simp add: idle_node_fields stops_of_def svc_ids)
  from idle conf p2p json one' dup two show ?thesis by simp
qed


lemma stop_failures_ABC: "stop_failures [svcA, svcB, svcC] [] = [(''*B'', Other ''F'')]"
  by (simp add: svcA_def svcB_def svcC_def fixed_service_answers)

lemma stop_failures_A1A2:
  "stop_failures [svcA1, svcA2] [] = [(''*A'', Other ''F1''), (''*A'', Other ''F2'')]"
  by (simp add: svcA1_def svcA2_def fixed_service_answers)

text \<open>
  C2 on three services of which the second fails to stop with \<open>F\<close>.
\<close>

theorem Stop_aggregates_by_type_witness:
  "server (running_node [svcA, svcB, svcC]) \<noteq> None
   \<and> stop_failures [svcA, svcB, svcC] [] = [(''*B'', Other ''F'')]
   \<and> Stop (running_node [svcA, svcB, svcC]) [] =
       (Some (StopError (fmupd ''*B'' (Other ''F'') fmempty)),
        (running_node [svcA, svcB, svcC])\<lparr>services := [], server := None\<rparr>,
        [SvcStop 1, SvcStop 2, SvcStop 3, P2PStop])
   \<and> holds_each_error (fmupd ''*B'' (Other ''F'') fmempty) [(''*B'', Other ''F'')]"
proof -
  let ?n = "running_node [svcA, svcB, svcC]"
  have run: "server ?n \<noteq> None" by (simp add: running_node_fields)
  from Stop_aggregates_by_type [OF run, of "[]"]
  obtain r where stop: "Stop ?n [] = (r, ?n\<lparr>services := [], server := None\<rparr>,
                                      [] @ stops_of (services ?n) @ [P2PStop])"
    and nil: "r = None \<longleftrightarrow> stop_failures (services ?n) [] = []"
    and agg: "\<forall>e. r = Some e \<longrightarrow>
                 (\<exists>m. e = StopError m
                    \<and> (\<forall>ty. fmlookup m ty = map_of (rev (stop_failures (services ?n) [])) ty)
                    \<and> (distinct (map fst (stop_failures (services ?n) [])) \<longrightarrow>
                         holds_each_error m (stop_failures (services ?n) [])))"
    by blast
  have fs: "stop_failures (services ?n) [] = [(''*B'', Other ''F'')]"
    unfolding running_node_fields by (rule stop_failures_ABC)
  from nil have "r \<noteq> None" unfolding fs by simp
  then obtain e where e: "r = Some e" by blast
  with agg obtain m where m: "e = StopError m"
    and look: "\<forall>ty. fmlookup m ty = map_of (rev (stop_failures (services ?n) [])) ty"
    and each: "distinct (map fst (stop_failures (services ?n) [])) \<longrightarrow>
                 holds_each_error m (stop_failures (services ?n) [])"
    by blast
  from look have look': "\<forall>ty. fmlookup m ty = map_of [(''*B'', Other ''F'')] ty"
    unfolding fs by simp
  have mm: "m = fmupd ''*B'' (Other ''F'') fmempty"
    by (rule fmap_ext) (simp add: look')
  from each have each': "holds_each_error m [(''*B'', Other ''F'')]"
    unfolding fs by simp
  have tr: "[] @ stops_of (services ?n) @ [P2PStop] = [SvcStop 1, SvcStop 2, SvcStop 3, P2PStop]"
    by (simp add: running_node_fields stops_of_def svc_ids)
  from stop e m mm each' run stop_failures_ABC show ?thesis
    unfolding tr by simp
qed

text \<open>
  C2 as stated fails on two services of one runtime type that both fail to stop: the aggregate has one entry, the error \<open>F2\<close> of the second, and the error \<open>F1\<close> of the first is not in it.
\<close>

theorem Stop_same_type_counterexample:
  "Stop (running_node [svcA1, svcA2]) [] =
     (Some (StopError (fmupd ''*A'' (Other ''F2'') fmempty)),
      (running_node [svcA1, svcA2])\<lparr>services := [], server := None\<rparr>,
      [SvcStop 5, SvcStop 4, P2PStop])
   \<and> svc_Stop svcA1 [] = Some (Other ''F1'')
   \<and> svc_Stop svcA2 [SvcStop 5] = Some (Other ''F2'')
   \<and> stop_failures [svcA1, svcA2] [] = [(''*A'', Other ''F1''), (''*A'', Other ''F2'')]
   \<and> \<not> holds_each_error (fmupd ''*A'' (Other ''F2'') fmempty)
         (stop_failures [svcA1, svcA2] [])"
  by (simp add: Stop_def running_node_def svcA1_def svcA2_def fixed_service_def
        holds_each_error_def)

text \<open>
  C7 where a service fails to stop, and where every service stops.
\<close>

theorem Restart_is_Stop_then_Start_witness:
  "Stop (running_node [svcA, svcB]) [] =
     (Some (StopError (fmupd ''*B'' (Other ''F'') fmempty)),
      (running_node [svcA, svcB])\<lparr>services := [], server := None\<rparr>,
      [SvcStop 1, SvcStop 2, P2PStop])
   \<and> Restart env_ok heap1 (running_node [svcA, svcB]) [] =
       Some (Some (StopError (fmupd ''*B'' (Other ''F'') fmempty)),
             (running_node [svcA, svcB])\<lparr>services := [], server := None\<rparr>,
             [SvcStop 1, SvcStop 2, P2PStop])
   \<and> Stop (running_node [svcA, svcC]) [] =
       (None, (running_node [svcA, svcC])\<lparr>services := [], server := None\<rparr>,
        [SvcStop 1, SvcStop 3, P2PStop])
   \<and> Restart env_ok heap1 (running_node [svcA, svcC]) [] =
       Start env_ok heap1 ((running_node [svcA, svcC])\<lparr>services := [], server := None\<rparr>)
         [SvcStop 1, SvcStop 3, P2PStop]
   \<and> Restart env_ok heap1 (running_node [svcA, svcC]) [] =
       Stop_then_Start env_ok heap1 (running_node [svcA, svcC]) []"
proof -
  have s1: "Stop (running_node [svcA, svcB]) [] =
     (Some (StopError (fmupd ''*B'' (Other ''F'') fmempty)),
      (running_node [svcA, svcB])\<lparr>services := [], server := None\<rparr>,
      [SvcStop 1, SvcStop 2, P2PStop])"
    by (simp add: Stop_def running_node_def svcA_def svcB_def fixed_service_def)
  have s2: "Stop (running_node [svcA, svcC]) [] =
       (None, (running_node [svcA, svcC])\<lparr>services := [], server := None\<rparr>,
        [SvcStop 1, SvcStop 3, P2PStop])"
    by (simp add: Stop_def running_node_def svcA_def svcC_def fixed_service_def)
  note r1 = Restart_is_Stop_then_Start [of env_ok heap1 "running_node [svcA, svcB]" "[]"]
  note r2 = Restart_is_Stop_then_Start [of env_ok heap1 "running_node [svcA, svcC]" "[]"]
  from r1 s1 have a: "Restart env_ok heap1 (running_node [svcA, svcB]) [] =
       Some (Some (StopError (fmupd ''*B'' (Other ''F'') fmempty)),
             (running_node [svcA, svcB])\<lparr>services := [], server := None\<rparr>,
             [SvcStop 1, SvcStop 2, P2PStop])"
    by blast
  from r2 s2 have b: "Restart env_ok heap1 (running_node [svcA, svcC]) [] =
       Start env_ok heap1 ((running_node [svcA, svcC])\<lparr>services := [], server := None\<rparr>)
         [SvcStop 1, SvcStop 3, P2PStop]"
    by blast
  from r2 have c: "Restart env_ok heap1 (running_node [svcA, svcC]) [] =
       Stop_then_Start env_ok heap1 (running_node [svcA, svcC]) []"
    by blast
  from s1 a s2 b c show ?thesis by blast
qed

text \<open>
  C8 on a Running node with two services.
\<close>

theorem Restart_starts_zero_services_witness:
  "deref heap1 (config (running_node [svcA, svcC])) = Some conf0
   \<and> Restart env_ok heap1 (running_node [svcA, svcC]) [] =
       Some (None,
             (running_node [svcA, svcC])
               \<lparr>services := [],
                server := Some \<lparr>Server_Config = ''p2p'', Server_Protocols = []\<rparr>\<rparr>,
             [SvcStop 1, SvcStop 3, P2PStop,
              P2PStart \<lparr>Server_Config = ''p2p'', Server_Protocols = []\<rparr>,
              RPCListen '':55027'', RPCAccept [],
              HTTPNew [''localhost''] [''seele.pro''],
              HTTPHandle, HTTPListen '':65027'', HTTPServe []])
   \<and> services ((running_node [svcA, svcC])
               \<lparr>services := [],
                server := Some \<lparr>Server_Config = ''p2p'', Server_Protocols = []\<rparr>\<rparr>) = []"
proof -
  let ?n = "running_node [svcA, svcC]"
  let ?n' = "?n\<lparr>services := [],
                server := Some \<lparr>Server_Config = ''p2p'', Server_Protocols = []\<rparr>\<rparr>"
  let ?t' = "[SvcStop 1, SvcStop 3, P2PStop,
              P2PStart \<lparr>Server_Config = ''p2p'', Server_Protocols = []\<rparr>,
              RPCListen '':55027'', RPCAccept [],
              HTTPNew [''localhost''] [''seele.pro''],
              HTTPHandle, HTTPListen '':65027'', HTTPServe []]"
  have conf: "deref heap1 (config ?n) = Some conf0" by (rule deref_heap1)
  have ok: "Restart env_ok heap1 ?n [] = Some (None, ?n', ?t')"
    by (simp add: concrete_defs)
  then have ok': "Restart env_ok heap1 ?n [] = Some (None, ?n', ?t')
             \<or> (\<exists>n1 t1. Stop ?n [] = (None, n1, t1) \<and> Start env_ok heap1 n1 t1 = Some (None, ?n', ?t'))"
    by blast
  from Restart_starts_zero_services [OF conf ok'] conf ok show ?thesis by simp
qed


text \<open>
  C4, as amended, on two services with one API each.
\<close>

theorem Start_registers_before_own_accept_witness:
  "deref heap1 (config (idle_node [svcA, svcC])) = Some conf0
   \<and> Start env_ok heap1 (idle_node [svcA, svcC]) [] =
       Some (None, running_node [svcA, svcC],
             [P2PStart (server_of conf0 [svcA, svcC]), SvcStart 1 (server_of conf0 [svcA, svcC]),
              SvcStart 3 (server_of conf0 [svcA, svcC]),
              RPCRegister ''chain'' ''chainAPI'', RPCRegister ''miner'' ''minerAPI'',
              RPCListen '':55027'',
              RPCAccept [(''chain'', ''chainAPI''), (''miner'', ''minerAPI'')],
              HTTPNew [''localhost''] [''seele.pro''],
              HTTPRegister ''chain'' ''chainAPI'', HTTPRegister ''miner'' ''minerAPI'',
              HTTPHandle, HTTPListen '':65027'',
              HTTPServe [(''chain'', ''chainAPI''), (''miner'', ''minerAPI'')]])
   \<and> registered_before_own_accept [''chain'', ''miner''] [] []
        [P2PStart (server_of conf0 [svcA, svcC]), SvcStart 1 (server_of conf0 [svcA, svcC]),
         SvcStart 3 (server_of conf0 [svcA, svcC]),
         RPCRegister ''chain'' ''chainAPI'', RPCRegister ''miner'' ''minerAPI'',
         RPCListen '':55027'',
         RPCAccept [(''chain'', ''chainAPI''), (''miner'', ''minerAPI'')],
         HTTPNew [''localhost''] [''seele.pro''],
         HTTPRegister ''chain'' ''chainAPI'', HTTPRegister ''miner'' ''minerAPI'',
         HTTPHandle, HTTPListen '':65027'',
         HTTPServe [(''chain'', ''chainAPI''), (''miner'', ''minerAPI'')]]"
proof -
  let ?n = "idle_node [svcA, svcC]"
  let ?run = "server_of conf0 [svcA, svcC]"
  let ?tr = "[P2PStart ?run, SvcStart 1 ?run, SvcStart 3 ?run,
              RPCRegister ''chain'' ''chainAPI'', RPCRegister ''miner'' ''minerAPI'',
              RPCListen '':55027'',
              RPCAccept [(''chain'', ''chainAPI''), (''miner'', ''minerAPI'')],
              HTTPNew [''localhost''] [''seele.pro''],
              HTTPRegister ''chain'' ''chainAPI'', HTTPRegister ''miner'' ''minerAPI'',
              HTTPHandle, HTTPListen '':65027'',
              HTTPServe [(''chain'', ''chainAPI''), (''miner'', ''minerAPI'')]]"
  have conf: "deref heap1 (config ?n) = Some conf0" by (rule deref_heap1)
  have ok: "Start env_ok heap1 ?n [] = Some (None, running_node [svcA, svcC], ?tr)"
    by (simp add: concrete_defs)
  have apis: "concat (map svc_APIs [svcA, svcC]) = concat (map svc_APIs (services ?n))"
    by (simp add: idle_node_fields)
  have running: "?run = server_of conf0 (services ?n)" by (simp add: idle_node_fields)
  from Start_registers_before_own_accept [OF ok conf apis running]
  obtain evs where "?tr = [] @ evs"
    and "registered_before_own_accept (map Namespace (concat (map svc_APIs [svcA, svcC]))) [] [] evs"
    by blast
  then have "registered_before_own_accept (map Namespace (concat (map svc_APIs [svcA, svcC]))) [] [] ?tr"
    by simp
  then have "registered_before_own_accept [''chain'', ''miner''] [] [] ?tr"
    by (simp add: svcA_def svcC_def fixed_service_answers)
  with conf ok show ?thesis by blast
qed

text \<open>
  C4 as stated fails on a node with one service: when the accept loop of the raw-socket listener is launched, the namespace \<open>chain\<close> has not been registered on the HTTP server.
\<close>

theorem Start_accepts_before_http_registration_counterexample:
  "Start env_ok heap1 (idle_node [svcA]) [] =
     Some (None, running_node [svcA],
           [P2PStart (server_of conf0 [svcA]), SvcStart 1 (server_of conf0 [svcA]),
            RPCRegister ''chain'' ''chainAPI'', RPCListen '':55027'',
            RPCAccept [(''chain'', ''chainAPI'')],
            HTTPNew [''localhost''] [''seele.pro''],
            HTTPRegister ''chain'' ''chainAPI'', HTTPHandle, HTTPListen '':65027'',
            HTTPServe [(''chain'', ''chainAPI'')]])
   \<and> map Namespace (concat (map svc_APIs (services (idle_node [svcA])))) = [''chain'']
   \<and> \<not> registered_before_either_accepts [''chain''] [] []
         [P2PStart (server_of conf0 [svcA]), SvcStart 1 (server_of conf0 [svcA]),
          RPCRegister ''chain'' ''chainAPI'', RPCListen '':55027'',
          RPCAccept [(''chain'', ''chainAPI'')],
          HTTPNew [''localhost''] [''seele.pro''],
          HTTPRegister ''chain'' ''chainAPI'', HTTPHandle, HTTPListen '':65027'',
          HTTPServe [(''chain'', ''chainAPI'')]]"
  by (simp add: concrete_defs)

text \<open>
  C9, as amended, for two assignments to fields of the config object of the caller.
\<close>

theorem New_copy_survives_field_assignments_witness:
  "New heap0 0 = Some (idle_node [], None, heap1)
   \<and> list_all field_assignment [SetRPCAddr '':1'', SetHTTPCors (Slice 0 1)]
   \<and> mutate_all heap1 0 [SetRPCAddr '':1'', SetHTTPCors (Slice 0 1)] =
       Some \<lparr>structs = [conf0\<lparr>RPCAddr := '':1'', HTTPCors := Slice 0 1\<rparr>, conf0],
             arrays = [[''localhost''], [''seele.pro'']]\<rparr>
   \<and> stored_config
        \<lparr>structs = [conf0\<lparr>RPCAddr := '':1'', HTTPCors := Slice 0 1\<rparr>, conf0],
         arrays = [[''localhost''], [''seele.pro'']]\<rparr> (idle_node [])
       = stored_config heap1 (idle_node [])
   \<and> stored_config heap1 (idle_node []) =
       Some (''p2p'', '':55027'', '':65027'', [''localhost''], [''seele.pro''])
   \<and> Start env_ok
        \<lparr>structs = [conf0\<lparr>RPCAddr := '':1'', HTTPCors := Slice 0 1\<rparr>, conf0],
         arrays = [[''localhost''], [''seele.pro'']]\<rparr> (idle_node [svcA]) []
       = Start env_ok heap1 (idle_node [svcA]) []"
proof -
  let ?ms = "[SetRPCAddr '':1'', SetHTTPCors (Slice 0 1)]"
  let ?h2 = "\<lparr>structs = [conf0\<lparr>RPCAddr := '':1'', HTTPCors := Slice 0 1\<rparr>, conf0],
             arrays = [[''localhost''], [''seele.pro'']]\<rparr>"
  have new: "New heap0 0 = Some (idle_node [], None, heap1)"
    by (simp add: New_def heap0_def heap1_def deref_def idle_node_def)
  have fas: "list_all field_assignment ?ms" by simp
  have muts: "mutate_all heap1 0 ?ms = Some ?h2"
    by (simp add: heap1_def deref_def store_struct_def)
  note r = New_copy_survives_field_assignments [OF new fas muts, of env_ok "[]"]
  from r have a: "stored_config ?h2 (idle_node []) = stored_config heap1 (idle_node [])"
    by blast
  from r have b: "stored_config heap1 (idle_node []) =
       Some (''p2p'', '':55027'', '':65027'', [''localhost''], [''seele.pro''])"
    by (simp add: heap0_def deref_def conf0_def slice_elems_def)
  from r have c: "Start env_ok ?h2 (idle_node [svcA]) [] = Start env_ok heap1 (idle_node [svcA]) []"
    by (simp add: idle_node_fields)
  from new fas muts a b c show ?thesis by blast
qed

text \<open>
  C9 as stated fails for a store into an element of \<open>HTTPCors\<close> of the config object of the caller: the copy of \<open>New\<close> shares the backing array, so the stored config of the node and the arguments a later \<open>Start\<close> gives to \<open>rpc.NewHTTPServer\<close> change.
\<close>

theorem New_shares_slice_arrays_counterexample:
  "New heap0 0 = Some (idle_node [], None, heap1)
   \<and> mutate heap1 0 (SetHTTPCorsElem 0 ''evil'') = Some heap_evil
   \<and> stored_config heap1 (idle_node []) =
       Some (''p2p'', '':55027'', '':65027'', [''localhost''], [''seele.pro''])
   \<and> stored_config heap_evil (idle_node []) =
       Some (''p2p'', '':55027'', '':65027'', [''localhost''], [''evil''])
   \<and> stored_config heap_evil (idle_node []) \<noteq> stored_config heap1 (idle_node [])
   \<and> Start env_ok heap1 (idle_node []) [] =
       Some (None, running_node [],
             [P2PStart (server_of conf0 []), RPCListen '':55027'', RPCAccept [],
              HTTPNew [''localhost''] [''seele.pro''], HTTPHandle, HTTPListen '':65027'',
              HTTPServe []])
   \<and> Start env_ok heap_evil (idle_node []) [] =
       Some (None, running_node [],
             [P2PStart (server_of conf0 []), RPCListen '':55027'', RPCAccept [],
              HTTPNew [''localhost''] [''evil''], HTTPHandle, HTTPListen '':65027'',
              HTTPServe []])
   \<and> Start env_ok heap_evil (idle_node []) [] \<noteq> Start env_ok heap1 (idle_node []) []"
  by (simp add: concrete_defs stored_config_def store_elem_def)

section \<open>Reward lookup: proofs\<close>

lemma GetReward_era:
  assumes "blockNumberPerEra \<noteq> 0"
  shows "GetReward rewardTable blockNumberPerEra tailReward n =
         Some (if unat n div unat blockNumberPerEra < length rewardTable
               then rewardTable ! (unat n div unat blockNumberPerEra) else tailReward)"
  using assms by (simp add: GetReward_def Let_def unat_div)

lemma unat_mult_of_nat:
  fixes bpe :: "64 word"
  assumes "bpe \<noteq> 0" "unat bpe * k < 2 ^ 64"
  shows "unat (bpe * of_nat k) = unat bpe * k"
proof -
  have pos: "0 < unat bpe" using assms(1) by (simp add: unat_gt_0)
  have "k \<le> unat bpe * k" using pos by simp
  then have k: "k < 2 ^ 64" using assms(2) by linarith
  have uk: "unat (of_nat k :: 64 word) = k"
    using k by (simp add: unat_of_nat)
  have "unat (bpe * of_nat k) = (unat bpe * unat (of_nat k :: 64 word)) mod 2 ^ 64"
    by (simp add: unat_word_ariths)
  also have "\<dots> = unat bpe * k" using assms(2) by (simp add: uk)
  finally show ?thesis .
qed

lemma era_last:
  assumes "0 < (b::nat)"
  shows "(b * (k + 1) - 1) div b = k"
proof (rule div_nat_eqI)
  show "b * k \<le> b * (k + 1) - 1" using assms by (simp add: algebra_simps)
  show "b * (k + 1) - 1 < b * Suc k" using assms by simp
qed

lemma last_block_unat:
  fixes bpe :: "64 word"
  assumes "bpe \<noteq> 0" "unat bpe * (k + 1) \<le> 2 ^ 64"
  shows "unat (bpe * (of_nat k + 1) - 1) = unat bpe * (k + 1) - 1"
proof -
  have pos: "0 < unat bpe" using assms(1) by (simp add: unat_gt_0)
  have lt: "unat bpe * k < 2 ^ 64" using assms(2) pos by (simp add: algebra_simps)
  have e: "bpe * (of_nat k + 1) - 1 = bpe * of_nat k + (bpe - 1)" by (simp add: algebra_simps)
  have m: "unat (bpe - 1) = unat bpe - 1" using assms(1) by (simp add: unat_minus_one)
  have s: "unat (bpe * of_nat k + (bpe - 1)) = (unat (bpe * of_nat k) + unat (bpe - 1)) mod 2 ^ 64"
    by (simp add: unat_word_ariths)
  have b: "unat bpe * k + (unat bpe - 1) < 2 ^ 64" using assms(2) pos by (simp add: algebra_simps)
  have "unat (bpe * (of_nat k + 1) - 1) = unat bpe * k + (unat bpe - 1)"
    unfolding e s m unat_mult_of_nat [OF assms(1) lt] using b by simp
  then show ?thesis using pos by (simp add: algebra_simps)
qed

text \<open>
  C10. Where the era length is not zero, the reward of block \<open>n\<close> is
  \<open>rewardTable[n div blockNumberPerEra]\<close> when that era is in the table and the tail
  reward otherwise. In particular the reward of block 0 is \<open>rewardTable[0]\<close>, the
  reward of the last block of era \<open>k\<close> is \<open>rewardTable[k]\<close>, and the reward of the
  first block past the last era of the table is the tail reward (the block numbers of
  the test, where they do not overflow \<open>uint64\<close>).
\<close>

theorem GetReward_table_lookup:
  assumes "blockNumberPerEra \<noteq> 0"
  shows "GetReward rewardTable blockNumberPerEra tailReward n =
           Some (if unat n div unat blockNumberPerEra < length rewardTable
                 then rewardTable ! (unat n div unat blockNumberPerEra) else tailReward)
       \<and> (rewardTable \<noteq> [] \<longrightarrow>
            GetReward rewardTable blockNumberPerEra tailReward 0 = Some (rewardTable ! 0))
       \<and> (\<forall>k. k < length rewardTable \<and> unat blockNumberPerEra * (k + 1) \<le> 2 ^ 64 \<longrightarrow>
            GetReward rewardTable blockNumberPerEra tailReward
              (blockNumberPerEra * (of_nat k + 1) - 1) = Some (rewardTable ! k))
       \<and> (unat blockNumberPerEra * length rewardTable < 2 ^ 64 \<longrightarrow>
            GetReward rewardTable blockNumberPerEra tailReward
              (blockNumberPerEra * of_nat (length rewardTable)) = Some tailReward)"
proof -
  have pos: "0 < unat blockNumberPerEra" using assms by (simp add: unat_gt_0)
  have a: "GetReward rewardTable blockNumberPerEra tailReward n =
           Some (if unat n div unat blockNumberPerEra < length rewardTable
                 then rewardTable ! (unat n div unat blockNumberPerEra) else tailReward)"
    by (rule GetReward_era [OF assms])
  have b: "rewardTable \<noteq> [] \<longrightarrow>
            GetReward rewardTable blockNumberPerEra tailReward 0 = Some (rewardTable ! 0)"
    by (simp add: GetReward_era [OF assms])
  have c: "GetReward rewardTable blockNumberPerEra tailReward
             (blockNumberPerEra * (of_nat k + 1) - 1) = Some (rewardTable ! k)"
    if "k < length rewardTable" "unat blockNumberPerEra * (k + 1) \<le> 2 ^ 64" for k
    using that
    by (simp only: GetReward_era [OF assms] last_block_unat [OF assms] era_last [OF pos] if_True)
  have d: "unat blockNumberPerEra * length rewardTable < 2 ^ 64 \<longrightarrow>
            GetReward rewardTable blockNumberPerEra tailReward
              (blockNumberPerEra * of_nat (length rewardTable)) = Some tailReward"
    using pos by (simp add: GetReward_era [OF assms] unat_mult_of_nat [OF assms])
  from a b c d show ?thesis by blast
qed

theorem GetReward_table_lookup_witness:
  "(10 :: 64 word) \<noteq> 0
   \<and> GetReward [100, 50, 25] 10 1 17 = Some 50
   \<and> GetReward [100, 50, 25] 10 1 0 = Some 100
   \<and> GetReward [100, 50, 25] 10 1 19 = Some 50
   \<and> GetReward [100, 50, 25] 10 1 29 = Some 25
   \<and> GetReward [100, 50, 25] 10 1 30 = Some 1"
proof -
  have nz: "(10 :: 64 word) \<noteq> 0" by simp
  note t = GetReward_table_lookup [OF nz, of "[100, 50, 25]" 1 17]
  from t have a: "GetReward [100, 50, 25] 10 1 17 = Some 50" by simp
  from t have b: "GetReward [100, 50, 25] 10 1 0 = Some 100" by simp
  from t have k: "\<forall>k. k < length [100, 50, 25 :: int] \<and> unat (10 :: 64 word) * (k + 1) \<le> 2 ^ 64 \<longrightarrow>
            GetReward [100, 50, 25] 10 1 (10 * (of_nat k + 1) - 1) = Some ([100, 50, 25] ! k)"
    by blast
  from k [rule_format, of 1] have c: "GetReward [100, 50, 25] 10 1 19 = Some 50" by simp
  from k [rule_format, of 2] have d: "GetReward [100, 50, 25] 10 1 29 = Some 25" by simp
  from t have e: "GetReward [100, 50, 25] 10 1 30 = Some 1" by simp
  from nz a b c d e show ?thesis by blast
qed

end
